theory Spec2Isabelle
  imports Main "HOL-Library.Char_ord" "HOL-Library.List_Lexorder"
begin

section \<open>Python values shared by the whole application\<close>

text \<open>
  Exceptions of the Python runtime that the modelled code can raise, and the HTTP aborts of
  the web framework.  A function that can raise returns \<open>py_error + 'a\<close>, with \<open>Inl\<close> for
  the exception.
\<close>

datatype py_error = ValueError | InvalidOperation | Overflow | NotFound404

subsection \<open>\<open>datetime.date\<close>\<close>

text \<open>
  A \<open>datetime.date\<close> is a triple of year, month and day in the proleptic Gregorian calendar,
  with \<open>MINYEAR = 1\<close> and \<open>MAXYEAR = 9999\<close>.  The constructor and \<open>replace\<close> raise
  \<open>ValueError\<close> outside that range.
\<close>

record date =
  year :: int
  month :: int
  day :: int

definition is_leap :: "int \<Rightarrow> bool" where
  "is_leap y \<longleftrightarrow> y mod 4 = 0 \<and> (y mod 100 \<noteq> 0 \<or> y mod 400 = 0)"

definition days_in_month :: "int \<Rightarrow> int \<Rightarrow> int" where
  "days_in_month y m =
     (if m = 2 then (if is_leap y then 29 else 28)
      else if m = 4 \<or> m = 6 \<or> m = 9 \<or> m = 11 then 30 else 31)"

definition valid_date :: "date \<Rightarrow> bool" where
  "valid_date d \<longleftrightarrow>
     1 \<le> year d \<and> year d \<le> 9999 \<and> 1 \<le> month d \<and> month d \<le> 12 \<and>
     1 \<le> day d \<and> day d \<le> days_in_month (year d) (month d)"

definition mk_date :: "int \<Rightarrow> int \<Rightarrow> int \<Rightarrow> date" where
  "mk_date y m d = \<lparr>year = y, month = m, day = d\<rparr>"

text \<open>\<open>date.replace(year=y)\<close> and \<open>date.replace(day=n)\<close>: the new triple is validated.\<close>

definition replace_year :: "date \<Rightarrow> int \<Rightarrow> py_error + date" where
  "replace_year d y =
     (if valid_date (d\<lparr>year := y\<rparr>) then Inr (d\<lparr>year := y\<rparr>) else Inl ValueError)"

definition replace_day :: "date \<Rightarrow> int \<Rightarrow> py_error + date" where
  "replace_day d n =
     (if valid_date (d\<lparr>day := n\<rparr>) then Inr (d\<lparr>day := n\<rparr>) else Inl ValueError)"

text \<open>Comparison of dates is the lexicographic order of the triples.\<close>

definition date_less :: "date \<Rightarrow> date \<Rightarrow> bool" where
  "date_less a b \<longleftrightarrow>
     year a < year b \<or> (year a = year b \<and>
       (month a < month b \<or> (month a = month b \<and> day a < day b)))"

text \<open>\<open>date.toordinal()\<close>: day 1 is 0001-01-01.\<close>

definition days_before_year :: "int \<Rightarrow> int" where
  "days_before_year y = (y - 1) * 365 + (y - 1) div 4 - (y - 1) div 100 + (y - 1) div 400"

definition days_before_month :: "int \<Rightarrow> int \<Rightarrow> int" where
  "days_before_month y m = sum_list (map (days_in_month y) [1..m - 1])"

definition toordinal :: "date \<Rightarrow> int" where
  "toordinal d = days_before_year (year d) + days_before_month (year d) (month d) + day d"

text \<open>\<open>(a - b).days\<close> for two dates.\<close>

definition date_diff_days :: "date \<Rightarrow> date \<Rightarrow> int" where
  "date_diff_days a b = toordinal a - toordinal b"

subsection \<open>Strings\<close>

text \<open>
  Strings are lists of 8-bit characters; the model covers ASCII text.  \<open>str.strip()\<close>
  removes the characters for which \<open>str.isspace\<close> holds: tab, line feed, vertical tab,
  form feed, carriage return, the four separators \<open>0x1c\<close> to \<open>0x1f\<close> and the space.
\<close>

definition py_isspace :: "char \<Rightarrow> bool" where
  "py_isspace c \<longleftrightarrow> (let n = (of_char c :: nat) in (9 \<le> n \<and> n \<le> 13) \<or> (28 \<le> n \<and> n \<le> 32))"

definition strip :: "string \<Rightarrow> string" where
  "strip s = rev (dropWhile py_isspace (rev (dropWhile py_isspace s)))"

text \<open>\<open>s.replace(x, r)\<close> for a pattern \<open>x\<close> of one character.\<close>

definition replace_chr :: "char \<Rightarrow> string \<Rightarrow> string \<Rightarrow> string" where
  "replace_chr x r s = concat (map (\<lambda>c. if c = x then r else [c]) s)"

definition is_digit :: "char \<Rightarrow> bool" where
  "is_digit c \<longleftrightarrow> c \<in> set ''0123456789''"

definition to_lower :: "char \<Rightarrow> char" where
  "to_lower c =
     (case map_of (zip ''ABCDEFGHIJKLMNOPQRSTUVWXYZ'' ''abcdefghijklmnopqrstuvwxyz'') c of
        Some l \<Rightarrow> l
      | None \<Rightarrow> c)"

definition nat_of_digits :: "string \<Rightarrow> nat" where
  "nat_of_digits ds = foldl (\<lambda>a c. 10 * a + ((of_char c :: nat) - 48)) 0 ds"

subsection \<open>\<open>decimal.Decimal\<close>\<close>

text \<open>
  A \<open>Decimal\<close> is a finite number (sign, coefficient, exponent: the value is
  \<open>\<plusminus> coefficient * 10 ^ exponent\<close>; the sign is \<open>True\<close> for negative), an infinity, a quiet
  NaN or a signaling NaN (both with a sign and a diagnostic payload).  The context is the
  default one: precision 28, \<open>ROUND_HALF_EVEN\<close>, \<open>Emax = 999999\<close>, with the traps
  \<open>InvalidOperation\<close>, \<open>DivisionByZero\<close> and \<open>Overflow\<close> enabled, so these signals raise.
\<close>

datatype decimal = Fin bool nat int | Infinity bool | NaN bool nat | SNaN bool nat

definition prec :: nat where
  "prec = 28"

definition Emax :: int where
  "Emax = 999999"

text \<open>The number of digits of a coefficient (\<open>len(self._int)\<close>; the coefficient 0 has one).\<close>

fun ndigits :: "nat \<Rightarrow> nat" where
  "ndigits n = (if n < 10 then 1 else Suc (ndigits (n div 10)))"

declare ndigits.simps [simp del]

definition round_half_even :: "nat \<Rightarrow> nat \<Rightarrow> nat" where
  "round_half_even c p =
     (let q = c div p; r = c mod p
      in if p < 2 * r \<or> (2 * r = p \<and> odd q) then q + 1 else q)"

text \<open>\<open>_rescale\<close> of a finite coefficient from exponent \<open>e\<close> to exponent \<open>-2\<close>.\<close>

definition rescale2 :: "nat \<Rightarrow> int \<Rightarrow> nat" where
  "rescale2 c e =
     (if - 2 \<le> e then c * 10 ^ nat (e + 2) else round_half_even c (10 ^ nat (- 2 - e)))"

text \<open>
  \<open>d.quantize(Decimal("0.01"))\<close>.  A signaling NaN and an infinity signal
  \<open>InvalidOperation\<close>; a quiet NaN is returned with its payload cut to the precision; a
  result that would need more than 28 digits signals \<open>InvalidOperation\<close>.
\<close>

definition quantize :: "decimal \<Rightarrow> py_error + decimal" where
  "quantize d =
     (case d of
        SNaN s p \<Rightarrow> Inl InvalidOperation
      | NaN s p \<Rightarrow> Inr (NaN s (p mod 10 ^ prec))
      | Infinity s \<Rightarrow> Inl InvalidOperation
      | Fin s c e \<Rightarrow>
          if c = 0 then Inr (Fin s 0 (- 2))
          else
            let adjusted = e + int (ndigits c) - 1
            in if Emax < adjusted then Inl InvalidOperation
               else if int prec < adjusted + 2 + 1 then Inl InvalidOperation
               else
                 let c' = rescale2 c e
                 in if prec < ndigits c' then Inl InvalidOperation
                    else Inr (Fin s c' (- 2)))"

text \<open>\<open>Decimal(n)\<close> for an \<open>int\<close> and \<open>Decimal(f)\<close> for a \<open>float\<close> are exact.\<close>

datatype pyfloat = FloatFin bool nat nat | FloatInf bool | FloatNaN bool

definition Decimal_of_int :: "int \<Rightarrow> decimal" where
  "Decimal_of_int n = Fin (n < 0) (nat \<bar>n\<bar>) 0"

text \<open>\<open>FloatFin s n k\<close> is the float \<open>\<plusminus> n / 2 ^ k\<close> (\<open>as_integer_ratio\<close>).\<close>

definition Decimal_of_float :: "pyfloat \<Rightarrow> decimal" where
  "Decimal_of_float f =
     (case f of
        FloatFin s n k \<Rightarrow> Fin s (n * 5 ^ k) (- int k)
      | FloatInf s \<Rightarrow> Infinity s
      | FloatNaN s \<Rightarrow> NaN s 0)"

text \<open>
  \<open>Decimal(s)\<close> for a string: surrounding whitespace and underscores are removed, then
  the whole string must be an optional sign followed by a number (digits with an optional
  fraction and an optional exponent, at least one digit), \<open>Inf\<close>, \<open>Infinity\<close>, \<open>NaN\<close> or
  \<open>sNaN\<close> with optional payload digits, case-insensitively.  Anything else signals
  \<open>InvalidOperation\<close>.
\<close>

definition parse_exp :: "string \<Rightarrow> int option" where
  "parse_exp r =
     (case r of
        [] \<Rightarrow> Some 0
      | c # t \<Rightarrow>
          if to_lower c = CHR ''e'' then
            (let neg = (t \<noteq> [] \<and> hd t = CHR ''-'');
                 ds = (if t \<noteq> [] \<and> (hd t = CHR ''-'' \<or> hd t = CHR ''+'') then tl t else t)
             in if ds \<noteq> [] \<and> list_all is_digit ds
                then Some (if neg then - int (nat_of_digits ds) else int (nat_of_digits ds))
                else None)
          else None)"

definition parse_number :: "bool \<Rightarrow> string \<Rightarrow> decimal option" where
  "parse_number neg r =
     (let ip = takeWhile is_digit r;
          r1 = dropWhile is_digit r;
          dot = (r1 \<noteq> [] \<and> hd r1 = CHR ''.'');
          fp = (if dot then takeWhile is_digit (tl r1) else []);
          r2 = (if dot then dropWhile is_digit (tl r1) else r1)
      in if ip = [] \<and> fp = [] then None
         else (case parse_exp r2 of
                 None \<Rightarrow> None
               | Some ex \<Rightarrow> Some (Fin neg (nat_of_digits (ip @ fp)) (ex - int (length fp)))))"

definition parse_special :: "bool \<Rightarrow> string \<Rightarrow> decimal option" where
  "parse_special neg r =
     (let l = map to_lower r
      in if l = ''inf'' \<or> l = ''infinity'' then Some (Infinity neg)
         else if take 3 l = ''nan'' \<and> list_all is_digit (drop 3 l)
           then Some (NaN neg (nat_of_digits (drop 3 l)))
         else if take 4 l = ''snan'' \<and> list_all is_digit (drop 4 l)
           then Some (SNaN neg (nat_of_digits (drop 4 l)))
         else None)"

definition Decimal_of_str :: "string \<Rightarrow> py_error + decimal" where
  "Decimal_of_str s =
     (let t = filter (\<lambda>c. c \<noteq> CHR ''_'') (strip s);
          signed = (t \<noteq> [] \<and> (hd t = CHR ''-'' \<or> hd t = CHR ''+''));
          neg = (t \<noteq> [] \<and> hd t = CHR ''-'');
          r = (if signed then tl t else t)
      in case parse_number neg r of
           Some d \<Rightarrow> Inr d
         | None \<Rightarrow> (case parse_special neg r of
                       Some d \<Rightarrow> Inr d
                     | None \<Rightarrow> Inl InvalidOperation))"

subsection \<open>Decimal addition and subtraction\<close>

text \<open>
  \<open>_fix\<close>: the result of an operation is rounded to the precision of the context
  (half-even); \<open>Overflow\<close> is trapped, the other signals are not.
\<close>

definition Etiny :: int where
  "Etiny = - 999999 - int prec + 1"

definition Etop :: int where
  "Etop = Emax - int prec + 1"

definition dec_fix :: "decimal \<Rightarrow> py_error + decimal" where
  "dec_fix d =
     (case d of
        Fin s c e \<Rightarrow>
          if c = 0 then Inr (Fin s 0 (min (max e Etiny) Emax))
          else
            let exp_min0 = int (ndigits c) + e - int prec
            in if Etop < exp_min0 then Inl Overflow
               else
                 let exp_min = max exp_min0 Etiny
                 in if e < exp_min then
                      (let c' = round_half_even c (10 ^ nat (exp_min - e))
                       in if prec < ndigits c'
                          then (if Etop < exp_min + 1 then Inl Overflow
                                else Inr (Fin s (c' div 10) (exp_min + 1)))
                          else Inr (Fin s c' exp_min))
                    else Inr (Fin s c e)
      | NaN s p \<Rightarrow> Inr (NaN s (p mod 10 ^ prec))
      | _ \<Rightarrow> Inr d)"

fun is_snan :: "decimal \<Rightarrow> bool" where
  "is_snan (SNaN s p) = True"
| "is_snan _ = False"

fun is_qnan :: "decimal \<Rightarrow> bool" where
  "is_qnan (NaN s p) = True"
| "is_qnan _ = False"

text \<open>\<open>_check_nans\<close>: a signaling NaN raises, a quiet NaN is the result.\<close>

definition check_nans :: "decimal \<Rightarrow> decimal \<Rightarrow> (py_error + decimal) option" where
  "check_nans a b =
     (if is_snan a \<or> is_snan b then Some (Inl InvalidOperation)
      else if is_qnan a then Some (dec_fix a)
      else if is_qnan b then Some (dec_fix b)
      else None)"

definition signed :: "bool \<Rightarrow> nat \<Rightarrow> int" where
  "signed s c = (if s then - int c else int c)"

text \<open>
  \<open>a + b\<close>: the exact sum, at the smaller exponent, rounded by \<open>_fix\<close>; the zeros keep
  their special exponents.
\<close>

fun dec_add :: "decimal \<Rightarrow> decimal \<Rightarrow> py_error + decimal" where
  "dec_add (Fin sa ca ea) (Fin sb cb eb) =
     (let e = min ea eb
      in if ca = 0 \<and> cb = 0 then dec_fix (Fin (sa \<and> sb) 0 e)
         else if ca = 0 then
           (let ex = max e (eb - int prec - 1) in dec_fix (Fin sb (cb * 10 ^ nat (eb - ex)) ex))
         else if cb = 0 then
           (let ex = max e (ea - int prec - 1) in dec_fix (Fin sa (ca * 10 ^ nat (ea - ex)) ex))
         else
           (let v = signed sa ca * 10 ^ nat (ea - e) + signed sb cb * 10 ^ nat (eb - e)
            in if v = 0 then dec_fix (Fin False 0 e) else dec_fix (Fin (v < 0) (nat \<bar>v\<bar>) e)))"
| "dec_add a b =
     (case check_nans a b of
        Some r \<Rightarrow> r
      | None \<Rightarrow>
          (case (a, b) of
             (Infinity sa, Infinity sb) \<Rightarrow> if sa \<noteq> sb then Inl InvalidOperation else Inr a
           | (Infinity sa, _) \<Rightarrow> Inr a
           | _ \<Rightarrow> Inr b))"

fun copy_negate :: "decimal \<Rightarrow> decimal" where
  "copy_negate (Fin s c e) = Fin (\<not> s) c e"
| "copy_negate (Infinity s) = Infinity (\<not> s)"
| "copy_negate (NaN s p) = NaN (\<not> s) p"
| "copy_negate (SNaN s p) = SNaN (\<not> s) p"

definition dec_sub :: "decimal \<Rightarrow> decimal \<Rightarrow> py_error + decimal" where
  "dec_sub a b =
     (case check_nans a b of
        Some r \<Rightarrow> r
      | None \<Rightarrow> dec_add a (copy_negate b))"

text \<open>
  The totals of a summary are Python numbers: the \<open>int\<close> that \<open>sum\<close> starts from, or a
  \<open>Decimal\<close> once a value has been added.
\<close>

datatype pynum = PInt int | PDec decimal

definition py_add :: "pynum \<Rightarrow> decimal \<Rightarrow> py_error + pynum" where
  "py_add acc v =
     (case acc of
        PInt n \<Rightarrow> map_sum id PDec (dec_add v (Decimal_of_int n))
      | PDec a \<Rightarrow> map_sum id PDec (dec_add a v))"

definition py_sub :: "pynum \<Rightarrow> pynum \<Rightarrow> py_error + pynum" where
  "py_sub x y =
     (case (x, y) of
        (PInt a, PInt b) \<Rightarrow> Inr (PInt (a - b))
      | (PDec a, PInt b) \<Rightarrow> map_sum id PDec (dec_sub a (Decimal_of_int b))
      | (PInt a, PDec b) \<Rightarrow> map_sum id PDec (dec_sub (Decimal_of_int a) b)
      | (PDec a, PDec b) \<Rightarrow> map_sum id PDec (dec_sub a b))"

section \<open>Parsing money\<close>

text \<open>
  The argument of \<open>parse_decimal\<close>: \<open>None\<close>, a number (\<open>int\<close>, \<open>float\<close> or \<open>Decimal\<close>) or a
  string.
\<close>

datatype pyvalue = PyNone | PyInt int | PyFloat pyfloat | PyDecimal decimal | PyStr string

definition ZERO_00 :: decimal where
  "ZERO_00 = Fin False 0 (- 2)"

text \<open>
  \<open>try: ... except (InvalidOperation, ValueError): return default\<close>: the two exceptions
  are replaced by the default, any other one propagates.
\<close>

definition except_default :: "decimal \<Rightarrow> py_error + decimal \<Rightarrow> py_error + decimal" where
  "except_default dflt r =
     (case r of
        Inl e \<Rightarrow> if e = InvalidOperation \<or> e = ValueError then Inr dflt else Inl e
      | Inr d \<Rightarrow> Inr d)"

definition parse_decimal :: "pyvalue \<Rightarrow> decimal \<Rightarrow> py_error + decimal" where
  "parse_decimal v dflt =
     (case v of
        PyNone \<Rightarrow> Inr dflt
      | PyInt n \<Rightarrow> quantize (Decimal_of_int n)
      | PyFloat f \<Rightarrow> quantize (Decimal_of_float f)
      | PyDecimal d \<Rightarrow> quantize d
      | PyStr s \<Rightarrow>
          (let cleaned = replace_chr CHR '','' ''.'' (replace_chr CHR ''.'' [] (strip s))
           in except_default dflt
                (case Decimal_of_str cleaned of Inl e \<Rightarrow> Inl e | Inr d \<Rightarrow> quantize d)))"

section \<open>The data model\<close>

text \<open>
  One record per table row, with the columns of the models (the \<open>created_at\<close> time stamps
  are left out), and the database as the five tables, each a list of rows in insertion
  order.
\<close>

record user =
  us_id :: nat
  us_username :: string
  us_password_hash :: string
  us_role :: string

record turma =
  tu_id :: nat
  tu_nome :: string
  tu_categoria :: string
  tu_dias_horario :: string
  tu_local_treino :: string

record aluno =
  al_id :: nat
  al_nome :: string
  al_idade :: int
  al_responsavel :: string
  al_telefone :: string
  al_status :: string
  al_observacoes :: string
  al_data_nascimento :: "date option"
  al_turma_id :: "nat option"
  al_valor_mensalidade :: decimal
  al_projeto_social :: bool

record presenca =
  pr_id :: nat
  pr_data :: date
  pr_presente :: bool
  pr_aluno_id :: nat
  pr_turma_id :: nat

record pagamento =
  pg_id :: nat
  pg_competencia :: date
  pg_pago :: bool
  pg_data_pagamento :: "date option"
  pg_observacao :: string
  pg_valor :: decimal
  pg_aluno_id :: nat

record database =
  db_users :: "user list"
  db_turmas :: "turma list"
  db_alunos :: "aluno list"
  db_presencas :: "presenca list"
  db_pagamentos :: "pagamento list"

text \<open>The integer primary key of a new row is one more than the largest one in the table.\<close>

definition next_id :: "nat list \<Rightarrow> nat" where
  "next_id ids = Suc (fold max ids 0)"

section \<open>Monthly payment reconciliation\<close>

text \<open>\<open>Pagamento.query.filter_by(aluno_id=..., competencia=...).first()\<close>\<close>

definition find_pagamento :: "nat \<Rightarrow> date \<Rightarrow> pagamento list \<Rightarrow> pagamento option" where
  "find_pagamento aid ref ps = find (\<lambda>p. pg_aluno_id p = aid \<and> pg_competencia p = ref) ps"

text \<open>\<open>db.session.delete(pagamento)\<close>: the row with that primary key is deleted.\<close>

definition delete_pagamento :: "pagamento \<Rightarrow> pagamento list \<Rightarrow> pagamento list" where
  "delete_pagamento p ps = filter (\<lambda>q. pg_id q \<noteq> pg_id p) ps"

text \<open>\<open>Pagamento(aluno=aluno, competencia=referencia)\<close>, inserted with the column defaults.\<close>

definition new_pagamento :: "nat \<Rightarrow> date \<Rightarrow> pagamento list \<Rightarrow> pagamento" where
  "new_pagamento aid ref ps =
     \<lparr>pg_id = next_id (map pg_id ps), pg_competencia = ref, pg_pago = False,
      pg_data_pagamento = None, pg_observacao = [], pg_valor = ZERO_00, pg_aluno_id = aid\<rparr>"

text \<open>The flush of a modified row: the row with that primary key is rewritten.\<close>

definition update_pagamento :: "pagamento \<Rightarrow> pagamento list \<Rightarrow> pagamento list" where
  "update_pagamento p ps = map (\<lambda>q. if pg_id q = pg_id p then p else q) ps"

text \<open>
  One iteration of the loop of \<open>pagamentos_do_mes_referencia\<close>, on the table of payments
  and the list \<open>registros\<close>.
\<close>

definition reconcile_aluno ::
  "date \<Rightarrow> pagamento list \<times> pagamento list \<Rightarrow> aluno \<Rightarrow>
   py_error + pagamento list \<times> pagamento list" where
  "reconcile_aluno referencia st aluno =
     (let ps = fst st; registros = snd st;
          pagamento = find_pagamento (al_id aluno) referencia ps
      in if al_projeto_social aluno then
           (case pagamento of
              Some p \<Rightarrow> Inr (delete_pagamento p ps, registros)
            | None \<Rightarrow> Inr (ps, registros))
         else
           (let p = (case pagamento of
                       None \<Rightarrow> new_pagamento (al_id aluno) referencia ps
                     | Some q \<Rightarrow> q);
                ps1 = (case pagamento of None \<Rightarrow> ps @ [p] | Some q \<Rightarrow> ps)
            in case parse_decimal (PyDecimal (al_valor_mensalidade aluno)) ZERO_00 of
                 Inl e \<Rightarrow> Inl e
               | Inr v \<Rightarrow>
                   (let p' = p\<lparr>pg_valor := v\<rparr>
                    in Inr (update_pagamento p' ps1, registros @ [p']))))"

fun reconcile_loop ::
  "date \<Rightarrow> aluno list \<Rightarrow> pagamento list \<times> pagamento list \<Rightarrow>
   py_error + pagamento list \<times> pagamento list" where
  "reconcile_loop referencia [] st = Inr st"
| "reconcile_loop referencia (a # as) st =
     (case reconcile_aluno referencia st a of
        Inl e \<Rightarrow> Inl e
      | Inr st' \<Rightarrow> reconcile_loop referencia as st')"

text \<open>\<open>Aluno.query.order_by(Aluno.nome).all()\<close>\<close>

definition order_by_nome :: "aluno list \<Rightarrow> aluno list" where
  "order_by_nome as = sort_key al_nome as"

text \<open>
  The summary.  \<open>percentual\<close> is a float; floating-point arithmetic is not evaluated, the
  value is kept as the expression that computes it: the literal \<open>0.0\<close>, or
  \<open>round((pagos / len(registros)) * 100, 1)\<close> with its two integer operands.
\<close>

datatype percent = Zero_float | Round_pct int int

record resumo =
  pagos :: int
  pendentes :: int
  percentual :: percent
  valor_previsto :: pynum
  valor_pago :: pynum
  valor_pendente :: pynum

fun sum_valores :: "pynum \<Rightarrow> pagamento list \<Rightarrow> py_error + pynum" where
  "sum_valores acc [] = Inr acc"
| "sum_valores acc (r # rs) =
     (case parse_decimal (PyDecimal (pg_valor r)) ZERO_00 of
        Inl e \<Rightarrow> Inl e
      | Inr v \<Rightarrow> (case py_add acc v of
                    Inl e \<Rightarrow> Inl e
                  | Inr acc' \<Rightarrow> sum_valores acc' rs))"

definition resumir :: "pagamento list \<Rightarrow> py_error + resumo" where
  "resumir registros =
     (let n_pagos = int (length (filter pg_pago registros));
          n_pendentes = int (length registros) - n_pagos;
          pct = (if registros \<noteq> [] then Round_pct n_pagos (int (length registros))
                 else Zero_float)
      in case sum_valores (PInt 0) registros of
           Inl e \<Rightarrow> Inl e
         | Inr previsto \<Rightarrow>
             (case sum_valores (PInt 0) (filter pg_pago registros) of
                Inl e \<Rightarrow> Inl e
              | Inr pago \<Rightarrow>
                  (case py_sub previsto pago of
                     Inl e \<Rightarrow> Inl e
                   | Inr pendente \<Rightarrow>
                       Inr \<lparr>pagos = n_pagos, pendentes = n_pendentes, percentual = pct,
                            valor_previsto = previsto, valor_pago = pago,
                            valor_pendente = pendente\<rparr>)))"

text \<open>
  \<open>pagamentos_do_mes_referencia\<close>: the committed database, the list \<open>registros\<close> and the
  summary.  When an exception is raised nothing is committed.
\<close>

definition pagamentos_do_mes_referencia ::
  "date \<Rightarrow> database \<Rightarrow> py_error + database \<times> pagamento list \<times> resumo" where
  "pagamentos_do_mes_referencia referencia db =
     (case reconcile_loop referencia (order_by_nome (db_alunos db)) (db_pagamentos db, []) of
        Inl e \<Rightarrow> Inl e
      | Inr st \<Rightarrow>
          (case resumir (snd st) of
             Inl e \<Rightarrow> Inl e
           | Inr r \<Rightarrow> Inr (db\<lparr>db_pagamentos := fst st\<rparr>, snd st, r)))"

section \<open>Due dates\<close>

text \<open>
  \<open>calendar.monthrange(year, month)[1]\<close> is the number of days of the month.
  \<open>calcular_vencimento\<close> clamps the due day to it and replaces the day of the competence
  date; \<open>DIA_VENCIMENTO_PADRAO\<close> is the default of the second argument.
\<close>

definition DIA_VENCIMENTO_PADRAO :: int where
  "DIA_VENCIMENTO_PADRAO = 10"

definition calcular_vencimento :: "date \<Rightarrow> int \<Rightarrow> py_error + date" where
  "calcular_vencimento competencia dia_vencimento =
     (let ultimo_dia = days_in_month (year competencia) (month competencia);
          dia = min dia_vencimento ultimo_dia
      in replace_day competencia dia)"

definition pg_key :: "pagamento \<Rightarrow> nat \<times> date" where
  "pg_key p = (pg_aluno_id p, pg_competencia p)"

definition wf_pagamentos :: "pagamento list \<Rightarrow> bool" where
  "wf_pagamentos ps \<longleftrightarrow> distinct (map pg_id ps) \<and> distinct (map pg_key ps)"

definition row_of :: "nat \<Rightarrow> date \<Rightarrow> pagamento list \<Rightarrow> pagamento" where
  "row_of k r ps = (case find_pagamento k r ps of Some q \<Rightarrow> q | None \<Rightarrow> new_pagamento k r ps)"

definition reconciled_row :: "date \<Rightarrow> aluno \<Rightarrow> pagamento option \<Rightarrow> decimal \<Rightarrow> pagamento \<Rightarrow> bool" where
  "reconciled_row ref a old v p \<longleftrightarrow>
     (case old of
        Some q \<Rightarrow> p = q\<lparr>pg_valor := v\<rparr>
      | None \<Rightarrow> pg_competencia p = ref \<and> \<not> pg_pago p \<and> pg_data_pagamento p = None \<and>
                pg_observacao p = [] \<and> pg_valor p = v \<and> pg_aluno_id p = al_id a)"

definition row_post :: "date \<Rightarrow> aluno \<Rightarrow> pagamento list \<Rightarrow> pagamento list \<Rightarrow> bool" where
  "row_post ref a ps ps' \<longleftrightarrow>
     (if al_projeto_social a then find_pagamento (al_id a) ref ps' = None
      else (\<exists>v p. parse_decimal (PyDecimal (al_valor_mensalidade a)) ZERO_00 = Inr v \<and>
                  find_pagamento (al_id a) ref ps' = Some p \<and>
                  reconciled_row ref a (find_pagamento (al_id a) ref ps) v p))"

definition registros_of :: "date \<Rightarrow> aluno list \<Rightarrow> pagamento list \<Rightarrow> pagamento list" where
  "registros_of ref as ps =
     map (\<lambda>a. the (find_pagamento (al_id a) ref ps)) (filter (\<lambda>a. \<not> al_projeto_social a) as)"

definition loop_post ::
  "date \<Rightarrow> aluno list \<Rightarrow> pagamento list \<Rightarrow> pagamento list \<Rightarrow> pagamento list \<Rightarrow>
   pagamento list \<Rightarrow> bool" where
  "loop_post ref as ps regs ps' regs' \<longleftrightarrow>
     wf_pagamentos ps' \<and> regs' = regs @ registros_of ref as ps' \<and>
     (\<forall>a \<in> set as. row_post ref a ps ps') \<and>
     (\<forall>k r. r \<noteq> ref \<or> k \<notin> al_id ` set as \<longrightarrow> find_pagamento k r ps' = find_pagamento k r ps)"

definition settled :: "date \<Rightarrow> aluno \<Rightarrow> pagamento list \<Rightarrow> bool" where
  "settled ref a ps \<longleftrightarrow>
     (if al_projeto_social a then find_pagamento (al_id a) ref ps = None
      else (\<exists>p. find_pagamento (al_id a) ref ps = Some p \<and>
                parse_decimal (PyDecimal (al_valor_mensalidade a)) ZERO_00 = Inr (pg_valor p)))"

definition pr_key :: "presenca \<Rightarrow> date \<times> nat" where
  "pr_key p = (pr_data p, pr_aluno_id p)"

definition db_constraints :: "database \<Rightarrow> bool" where
  "db_constraints db \<longleftrightarrow>
     distinct (map us_id (db_users db)) \<and> distinct (map us_username (db_users db)) \<and>
     distinct (map tu_id (db_turmas db)) \<and>
     distinct (map al_id (db_alunos db)) \<and>
     distinct (map pr_id (db_presencas db)) \<and> distinct (map pr_key (db_presencas db)) \<and>
     distinct (map pg_id (db_pagamentos db)) \<and> distinct (map pg_key (db_pagamentos db))"

text \<open>Example data: three students and the payments of March 2024.\<close>

definition mk_aluno :: "nat \<Rightarrow> string \<Rightarrow> string \<Rightarrow> decimal \<Rightarrow> bool \<Rightarrow> aluno" where
  "mk_aluno i n st fee ps =
     \<lparr>al_id = i, al_nome = n, al_idade = 10, al_responsavel = ''Resp'', al_telefone = ''5551234567'',
      al_status = st, al_observacoes = [], al_data_nascimento = None, al_turma_id = None,
      al_valor_mensalidade = fee, al_projeto_social = ps\<rparr>"

definition mk_pagamento :: "nat \<Rightarrow> nat \<Rightarrow> date \<Rightarrow> bool \<Rightarrow> date option \<Rightarrow> decimal \<Rightarrow> pagamento" where
  "mk_pagamento i a c pago dp v =
     \<lparr>pg_id = i, pg_competencia = c, pg_pago = pago, pg_data_pagamento = dp,
      pg_observacao = [], pg_valor = v, pg_aluno_id = a\<rparr>"

definition example_db :: database where
  "example_db =
     \<lparr>db_users = [], db_turmas = [],
      db_alunos = [mk_aluno 1 ''Zeca'' ''ativo'' (Fin False 15000 (- 2)) False,
                   mk_aluno 2 ''Ana'' ''inativo'' (Fin False 9950 (- 2)) False,
                   mk_aluno 3 ''Bia'' ''ativo'' (Fin False 0 (- 2)) True],
      db_presencas = [],
      db_pagamentos = [mk_pagamento 1 3 (mk_date 2024 3 1) False None (Fin False 10000 (- 2)),
                       mk_pagamento 2 1 (mk_date 2024 3 1) True (Some (mk_date 2024 3 5)) (Fin False 10000 (- 2))]\<rparr>"

definition example_registros :: "pagamento list" where
  "example_registros =
     [mk_pagamento 3 2 (mk_date 2024 3 1) False None (Fin False 9950 (- 2)),
      mk_pagamento 2 1 (mk_date 2024 3 1) True (Some (mk_date 2024 3 5)) (Fin False 15000 (- 2))]"

definition example_db_after :: database where
  "example_db_after = example_db\<lparr>db_pagamentos :=
     [mk_pagamento 2 1 (mk_date 2024 3 1) True (Some (mk_date 2024 3 5)) (Fin False 15000 (- 2)),
      mk_pagamento 3 2 (mk_date 2024 3 1) False None (Fin False 9950 (- 2))]\<rparr>"

definition example_resumo :: resumo where
  "example_resumo =
     \<lparr>pagos = 1, pendentes = 1, percentual = Round_pct 1 2,
      valor_previsto = PDec (Fin False 24950 (- 2)),
      valor_pago = PDec (Fin False 15000 (- 2)),
      valor_pendente = PDec (Fin False 9950 (- 2))\<rparr>"

text \<open>Python's \<open>sum\<close> over a list of \<open>Decimal\<close> values, from the \<open>int\<close> 0.\<close>

fun py_sum_from :: "pynum \<Rightarrow> decimal list \<Rightarrow> py_error + pynum" where
  "py_sum_from acc [] = Inr acc"
| "py_sum_from acc (v # vs) =
     (case py_add acc v of Inl e \<Rightarrow> Inl e | Inr acc' \<Rightarrow> py_sum_from acc' vs)"

definition py_sum :: "decimal list \<Rightarrow> py_error + pynum" where
  "py_sum vs = py_sum_from (PInt 0) vs"

text \<open>
  The value in cents of a total: of the \<open>int\<close> that \<open>sum\<close> starts from, and of a finite
  \<open>Decimal\<close> with exponent \<open>-2\<close>.
\<close>

fun cents :: "pynum \<Rightarrow> int option" where
  "cents (PInt n) = Some (100 * n)"
| "cents (PDec (Fin s c e)) = (if e = - 2 then Some (signed s c) else None)"
| "cents (PDec _) = None"

fun valor_cents :: "decimal \<Rightarrow> int" where
  "valor_cents (Fin s c e) = signed s c"
| "valor_cents _ = 0"

fun is_money :: "decimal \<Rightarrow> bool" where
  "is_money (Fin s c e) \<longleftrightarrow> e = - 2"
| "is_money _ \<longleftrightarrow> False"

definition money_acc :: "pynum \<Rightarrow> int \<Rightarrow> bool" where
  "money_acc x a \<longleftrightarrow> (x = PInt 0 \<and> a = 0) \<or> (\<exists>s c. x = PDec (Fin s c (- 2)) \<and> a = signed s c)"

definition example_zeca :: aluno where
  "example_zeca = mk_aluno 1 ''Zeca'' ''ativo'' (Fin False 15000 (- 2)) False"

definition example_ana :: aluno where
  "example_ana = mk_aluno 2 ''Ana'' ''inativo'' (Fin False 9950 (- 2)) False"

definition example_bia :: aluno where
  "example_bia = mk_aluno 3 ''Bia'' ''ativo'' (Fin False 0 (- 2)) True"

text \<open>
  The flash messages of the user-management view and of the permission gate, by category.
  Their texts, in order: "Faca login para acessar o sistema.", "Voce nao tem permissao para
  acessar este modulo.", "Selecione um perfil valido.", "Nao e possivel remover o ultimo
  administrador.", "Perfil atualizado.", "O usuario padrao 'admin' nao pode ser removido.",
  "Nao e possivel remover o usuario logado.", "Usuario removido.", "Presencas registradas!",
  "Nao foi possivel salvar as presencas. Tente novamente."
\<close>

datatype message =
  Faca_login | Sem_permissao | Perfil_invalido | Ultimo_administrador | Perfil_atualizado
  | Admin_padrao | Usuario_logado | Usuario_removido | Presencas_registradas
  | Presencas_nao_salvas

datatype response =
  Redirect_error message | Redirect_success message | Abort_404

definition ROLE_CHOICES :: "string list" where
  "ROLE_CHOICES = [''admin'', ''gestor'', ''instrutor'']"

definition ROLE_PERMISSIONS :: "(string \<times> string list) list" where
  "ROLE_PERMISSIONS =
     [(''admin'', [''dashboard'', ''alunos'', ''turmas'', ''presencas'', ''pagamentos'', ''config'', ''users'']),
      (''gestor'', [''dashboard'', ''alunos'', ''turmas'', ''pagamentos'']),
      (''instrutor'', [''dashboard'', ''presencas''])]"

text \<open>\<open>User.has_permission\<close>\<close>

definition has_permission :: "user \<Rightarrow> string \<Rightarrow> bool" where
  "has_permission u permission =
     (if us_role u = ''admin'' then True
      else (case map_of ROLE_PERMISSIONS (us_role u) of
              None \<Rightarrow> False
            | Some allowed \<Rightarrow> permission \<in> set allowed))"

text \<open>\<open>User.query.get(id)\<close>: the row with that primary key.\<close>

definition get_user :: "nat \<Rightarrow> database \<Rightarrow> user option" where
  "get_user uid db = find (\<lambda>u. us_id u = uid) (db_users db)"

text \<open>\<open>User.query.filter_by(role="admin").count()\<close>\<close>

definition admin_count :: "database \<Rightarrow> nat" where
  "admin_count db = length (filter (\<lambda>u. us_role u = ''admin'') (db_users db))"

text \<open>
  The requests of \<open>manage_users\<close> that delete an account or change a role: the form fields
  \<open>user_id\<close> and \<open>role\<close> of the actions \<open>update_role\<close> and \<open>delete\<close>.
\<close>

datatype user_action = Update_role nat string | Delete nat

text \<open>
  The two actions of the view.  \<open>current\<close> is the row of the authenticated user.
\<close>

definition update_role :: "user \<Rightarrow> nat \<Rightarrow> string \<Rightarrow> database \<Rightarrow> database \<times> response" where
  "update_role current user_id role db =
     (case get_user user_id db of
        None \<Rightarrow> (db, Abort_404)
      | Some usuario \<Rightarrow>
          if role \<notin> set ROLE_CHOICES then (db, Redirect_error Perfil_invalido)
          else if us_id usuario = us_id current \<and> role \<noteq> ''admin'' \<and> admin_count db = 1
            then (db, Redirect_error Ultimo_administrador)
          else (db\<lparr>db_users := map (\<lambda>u. if us_id u = us_id usuario then u\<lparr>us_role := role\<rparr> else u)
                                    (db_users db)\<rparr>,
                Redirect_success Perfil_atualizado))"

definition delete_user :: "user \<Rightarrow> nat \<Rightarrow> database \<Rightarrow> database \<times> response" where
  "delete_user current user_id db =
     (case get_user user_id db of
        None \<Rightarrow> (db, Abort_404)
      | Some usuario \<Rightarrow>
          if map to_lower (us_username usuario) = ''admin''
            then (db, Redirect_error Admin_padrao)
          else if us_id usuario = us_id current then (db, Redirect_error Usuario_logado)
          else if us_role usuario = ''admin'' \<and> admin_count db = 1
            then (db, Redirect_error Ultimo_administrador)
          else (db\<lparr>db_users := filter (\<lambda>u. us_id u \<noteq> us_id usuario) (db_users db)\<rparr>,
                Redirect_success Usuario_removido))"

text \<open>
  \<open>manage_users\<close> behind \<open>permission_required("users")\<close>, for a POST request.  The session
  holds the id of the logged-in user, if any; \<open>current_user\<close> is loaded from the table by
  that id, and is anonymous when there is none.
\<close>

definition manage_users :: "nat option \<Rightarrow> user_action \<Rightarrow> database \<Rightarrow> database \<times> response" where
  "manage_users session action db =
     (case (case session of None \<Rightarrow> None | Some uid \<Rightarrow> get_user uid db) of
        None \<Rightarrow> (db, Redirect_error Faca_login)
      | Some current \<Rightarrow>
          if \<not> has_permission current ''users'' then (db, Redirect_error Sem_permissao)
          else (case action of
                  Update_role user_id role \<Rightarrow> update_role current user_id role db
                | Delete user_id \<Rightarrow> delete_user current user_id db))"

fun is_error :: "response \<Rightarrow> bool" where
  "is_error (Redirect_error m) = True"
| "is_error _ = False"

definition mk_user :: "nat \<Rightarrow> string \<Rightarrow> string \<Rightarrow> user" where
  "mk_user i n r = \<lparr>us_id = i, us_username = n, us_password_hash = ''$2b$12$hash'', us_role = r\<rparr>"

definition example_users_db :: database where
  "example_users_db =
     \<lparr>db_users = [mk_user 1 ''carla'' ''admin'', mk_user 2 ''joao'' ''gestor''],
      db_turmas = [], db_alunos = [], db_presencas = [], db_pagamentos = []\<rparr>"

text \<open>\<open>Presenca.query.filter_by(aluno_id=..., data=...).first()\<close>\<close>

definition find_presenca :: "nat \<Rightarrow> date \<Rightarrow> presenca list \<Rightarrow> presenca option" where
  "find_presenca aid d ps = find (\<lambda>p. pr_aluno_id p = aid \<and> pr_data p = d) ps"

text \<open>The flush of a modified attendance row.\<close>

definition update_presenca :: "presenca \<Rightarrow> presenca list \<Rightarrow> presenca list" where
  "update_presenca p ps = map (\<lambda>q. if pr_id q = pr_id p then p else q) ps"

text \<open>\<open>Presenca(aluno_id=aluno.id, turma_id=turma.id, data=data_registro)\<close>, when inserted.\<close>

definition new_presenca :: "nat \<Rightarrow> nat \<Rightarrow> date \<Rightarrow> presenca list \<Rightarrow> presenca" where
  "new_presenca aid tid d ps =
     \<lparr>pr_id = next_id (map pr_id ps), pr_data = d, pr_presente = True,
      pr_aluno_id = aid, pr_turma_id = tid\<rparr>"

text \<open>
  One iteration of the loop of the attendance view, on the table of attendance rows:
  the row of the student and the date is fetched or created, then its \<open>presente\<close> flag and
  its class are set.
\<close>

definition registrar_presenca ::
  "nat \<Rightarrow> date \<Rightarrow> nat list \<Rightarrow> presenca list \<Rightarrow> aluno \<Rightarrow> presenca list" where
  "registrar_presenca tid data_registro presentes_ids ps aluno =
     (let presenca = find_presenca (al_id aluno) data_registro ps;
          p = (case presenca of
                 None \<Rightarrow> new_presenca (al_id aluno) tid data_registro ps
               | Some q \<Rightarrow> q);
          ps1 = (case presenca of None \<Rightarrow> ps @ [p] | Some q \<Rightarrow> ps);
          p' = p\<lparr>pr_presente := al_id aluno \<in> set presentes_ids, pr_turma_id := tid\<rparr>
      in update_presenca p' ps1)"

text \<open>\<open>turma.alunos\<close>: the students whose \<open>turma_id\<close> is the class.\<close>

definition turma_alunos :: "nat \<Rightarrow> database \<Rightarrow> aluno list" where
  "turma_alunos tid db = filter (\<lambda>a. al_turma_id a = Some tid) (db_alunos db)"

text \<open>
  The POST request of the attendance view, for the class id, the date and the submitted
  ids of the students present.  An unknown class aborts with 404.  The commit fails with
  \<open>IntegrityError\<close> when the unique constraint on (date, student) is violated; the
  transaction is then rolled back and an error is flashed.
\<close>

definition presencas_post ::
  "nat \<Rightarrow> date \<Rightarrow> nat list \<Rightarrow> database \<Rightarrow> database \<times> response" where
  "presencas_post turma_id data_registro presentes_ids db =
     (case find (\<lambda>t. tu_id t = turma_id) (db_turmas db) of
        None \<Rightarrow> (db, Abort_404)
      | Some turma \<Rightarrow>
          (let ps' = foldl (registrar_presenca (tu_id turma) data_registro presentes_ids)
                       (db_presencas db) (turma_alunos (tu_id turma) db)
           in if distinct (map pr_key ps')
              then (db\<lparr>db_presencas := ps'\<rparr>, Redirect_success Presencas_registradas)
              else (db, Redirect_error Presencas_nao_salvas)))"

definition wf_presencas :: "presenca list \<Rightarrow> bool" where
  "wf_presencas ps \<longleftrightarrow> distinct (map pr_id ps) \<and> distinct (map pr_key ps)"

definition presenca_row :: "nat \<Rightarrow> nat \<Rightarrow> date \<Rightarrow> presenca list \<Rightarrow> presenca" where
  "presenca_row aid tid d ps =
     (case find_presenca aid d ps of Some q \<Rightarrow> q | None \<Rightarrow> new_presenca aid tid d ps)"

definition marked :: "nat \<Rightarrow> date \<Rightarrow> nat list \<Rightarrow> aluno \<Rightarrow> presenca list \<Rightarrow> presenca list \<Rightarrow> bool" where
  "marked tid d ids a ps ps' \<longleftrightarrow>
     (\<exists>p. find_presenca (al_id a) d ps' = Some p \<and>
          pr_presente p = (al_id a \<in> set ids) \<and> pr_turma_id p = tid \<and>
          (case find_presenca (al_id a) d ps of
             Some q \<Rightarrow> p = q\<lparr>pr_presente := al_id a \<in> set ids, pr_turma_id := tid\<rparr>
           | None \<Rightarrow> True))"

definition attendance_post ::
  "nat \<Rightarrow> date \<Rightarrow> nat list \<Rightarrow> aluno list \<Rightarrow> presenca list \<Rightarrow> presenca list \<Rightarrow> bool" where
  "attendance_post tid d ids as ps ps' \<longleftrightarrow>
     wf_presencas ps' \<and> (\<forall>a \<in> set as. marked tid d ids a ps ps') \<and>
     (\<forall>k r. r \<noteq> d \<or> k \<notin> al_id ` set as \<longrightarrow> find_presenca k r ps' = find_presenca k r ps)"

definition example_class_db :: database where
  "example_class_db =
     \<lparr>db_users = [],
      db_turmas = [\<lparr>tu_id = 1, tu_nome = ''Sub-11'', tu_categoria = ''Infantil'',
                    tu_dias_horario = ''Seg 18h'', tu_local_treino = ''Campo 1''\<rparr>],
      db_alunos = [(mk_aluno 1 ''Zeca'' ''ativo'' (Fin False 15000 (- 2)) False)\<lparr>al_turma_id := Some 1\<rparr>,
                   (mk_aluno 2 ''Ana'' ''ativo'' (Fin False 9950 (- 2)) False)\<lparr>al_turma_id := Some 1\<rparr>,
                   mk_aluno 3 ''Bia'' ''ativo'' (Fin False 0 (- 2)) True],
      db_presencas = [\<lparr>pr_id = 1, pr_data = mk_date 2024 3 4, pr_presente = True,
                       pr_aluno_id = 1, pr_turma_id = 1\<rparr>],
      db_pagamentos = []\<rparr>"

definition example_class_db_after :: database where
  "example_class_db_after = example_class_db\<lparr>db_presencas :=
     [\<lparr>pr_id = 1, pr_data = mk_date 2024 3 4, pr_presente = False, pr_aluno_id = 1, pr_turma_id = 1\<rparr>,
      \<lparr>pr_id = 2, pr_data = mk_date 2024 3 4, pr_presente = True, pr_aluno_id = 2, pr_turma_id = 1\<rparr>]\<rparr>"

section \<open>Properties of the model\<close>

subsection \<open>Due dates\<close>

lemma days_in_month_ge_28: "28 \<le> days_in_month y m"
  by (simp add: days_in_month_def)

lemma days_in_month_le_31: "days_in_month y m \<le> 31"
  by (simp add: days_in_month_def)

lemma calcular_vencimento_nonpositive:
  "valid_date c \<Longrightarrow> d < 1 \<Longrightarrow> calcular_vencimento c d = Inl ValueError"
  by (simp add: calcular_vencimento_def replace_day_def Let_def valid_date_def min_def)

text \<open>
  Claim C6.  For every valid competence date and every due day (a day number, at least 1),
  \<open>calcular_vencimento\<close> returns the date of the same year and month whose day is the
  minimum of the due day and the last day of that month.
\<close>

theorem calcular_vencimento_clamps:
  assumes "valid_date c" and "1 \<le> d"
  shows "calcular_vencimento c d =
           Inr \<lparr>year = year c, month = month c,
                day = min d (days_in_month (year c) (month c))\<rparr>"
proof -
  let ?u = "days_in_month (year c) (month c)"
  have u: "28 \<le> ?u" by (rule days_in_month_ge_28)
  have v: "valid_date (c\<lparr>day := min d ?u\<rparr>)"
    using assms u by (simp add: valid_date_def min_def)
  show ?thesis
    using v by (simp add: calcular_vencimento_def replace_day_def Let_def)
qed

text \<open>
  Due day 10 in the 30-day month April 2024 gives day 10, and due day 31 in the 28-day
  month February 2023 gives day 28.
\<close>

theorem calcular_vencimento_clamps_witness:
  "valid_date (mk_date 2024 4 1) \<and> (1::int) \<le> DIA_VENCIMENTO_PADRAO \<and>
   calcular_vencimento (mk_date 2024 4 1) DIA_VENCIMENTO_PADRAO = Inr (mk_date 2024 4 10) \<and>
   valid_date (mk_date 2023 2 1) \<and> (1::int) \<le> 31 \<and>
   calcular_vencimento (mk_date 2023 2 1) 31 = Inr (mk_date 2023 2 28)"
proof -
  have a: "valid_date (mk_date 2024 4 1)"
    by (simp add: valid_date_def mk_date_def days_in_month_def)
  have b: "valid_date (mk_date 2023 2 1)"
    by (simp add: valid_date_def mk_date_def days_in_month_def is_leap_def)
  have c: "(1::int) \<le> DIA_VENCIMENTO_PADRAO" by (simp add: DIA_VENCIMENTO_PADRAO_def)
  have d: "(1::int) \<le> 31" by simp
  show ?thesis
    using a b c d calcular_vencimento_clamps [OF a c] calcular_vencimento_clamps [OF b d]
    by (simp add: mk_date_def days_in_month_def is_leap_def DIA_VENCIMENTO_PADRAO_def)
qed

lemma fold_max_ge: "i \<in> set ids \<Longrightarrow> i \<le> fold max ids (m::nat)"
proof (induction ids arbitrary: m)
  case Nil then show ?case by simp
next
  case (Cons x xs)
  have mono: "\<And>a. a \<le> fold max xs (a::nat)"
  proof -
    fix a :: nat show "a \<le> fold max xs a"
      by (induction xs arbitrary: a) (auto intro: order_trans [OF max.cobounded2])
  qed
  from Cons show ?case
  proof (cases "i = x")
    case True
    have "x \<le> max x m" by simp
    also have "\<dots> \<le> fold max xs (max x m)" by (rule mono)
    finally show ?thesis using True by simp
  next
    case False
    with Cons show ?thesis by simp
  qed
qed

lemma next_id_fresh: "next_id ids \<notin> set ids"
proof
  assume "next_id ids \<in> set ids"
  then have "next_id ids \<le> fold max ids 0" by (rule fold_max_ge)
  then show False by (simp add: next_id_def)
qed

lemma find_pagamento_SomeD:
  "find_pagamento aid ref ps = Some p \<Longrightarrow>
     p \<in> set ps \<and> pg_aluno_id p = aid \<and> pg_competencia p = ref"
  unfolding find_pagamento_def by (induction ps) (auto split: if_splits)

lemma find_pagamento_None_iff:
  "find_pagamento aid ref ps = None \<longleftrightarrow> (\<forall>p \<in> set ps. pg_key p \<noteq> (aid, ref))"
  unfolding find_pagamento_def pg_key_def by (induction ps) auto

lemma find_pagamento_unique:
  "distinct (map pg_key ps) \<Longrightarrow> p \<in> set ps \<Longrightarrow> pg_key p = (aid, ref) \<Longrightarrow>
     find_pagamento aid ref ps = Some p"
  unfolding find_pagamento_def pg_key_def by (induction ps) (auto simp: rev_image_eqI)

lemma update_pagamento_same:
  assumes "distinct (map pg_id ps)" and "p \<in> set ps"
  shows "update_pagamento p ps = ps"
proof -
  have inj: "inj_on pg_id (set ps)" using assms(1) by (simp add: distinct_map)
  have "\<And>q. q \<in> set ps \<Longrightarrow> (if pg_id q = pg_id p then p else q) = q"
    using inj assms(2) by (auto dest: inj_onD)
  then show ?thesis unfolding update_pagamento_def by (simp add: map_idI)
qed

lemma update_pagamento_ids: "map pg_id (update_pagamento p ps) = map pg_id ps"
  unfolding update_pagamento_def by (induction ps) auto

lemma update_pagamento_keys:
  assumes "distinct (map pg_id ps)" and "q \<in> set ps" and "pg_id p = pg_id q"
    and "pg_key p = pg_key q"
  shows "map pg_key (update_pagamento p ps) = map pg_key ps"
proof -
  have inj: "inj_on pg_id (set ps)" using assms(1) by (simp add: distinct_map)
  have "\<And>r. r \<in> set ps \<Longrightarrow> pg_key (if pg_id r = pg_id p then p else r) = pg_key r"
    using inj assms(2,3,4) by (auto dest: inj_onD)
  then show ?thesis unfolding update_pagamento_def by simp
qed

lemma update_pagamento_set:
  assumes "distinct (map pg_id ps)" and "q \<in> set ps" and "pg_id p = pg_id q"
  shows "set (update_pagamento p ps) = insert p (set ps - {q})"
proof -
  have inj: "inj_on pg_id (set ps)" using assms(1) by (simp add: distinct_map)
  show ?thesis unfolding update_pagamento_def using inj assms(2,3)
    by (auto dest: inj_onD simp: image_iff)
qed

lemma delete_pagamento_set:
  assumes "distinct (map pg_id ps)" and "p \<in> set ps"
  shows "set (delete_pagamento p ps) = set ps - {p}"
proof -
  have inj: "inj_on pg_id (set ps)" using assms(1) by (simp add: distinct_map)
  show ?thesis unfolding delete_pagamento_def using inj assms(2)
    by (auto dest: inj_onD)
qed

lemma wf_delete: "wf_pagamentos ps \<Longrightarrow> wf_pagamentos (delete_pagamento p ps)"
  unfolding wf_pagamentos_def delete_pagamento_def by (simp add: distinct_map_filter)

lemma find_pagamento_iff:
  "distinct (map pg_key ps) \<Longrightarrow>
     find_pagamento aid ref ps = Some p \<longleftrightarrow> p \<in> set ps \<and> pg_key p = (aid, ref)"
  using find_pagamento_SomeD [of aid ref ps p] find_pagamento_unique [of ps p aid ref]
  by (auto simp: pg_key_def)

lemma find_pagamento_cong_set:
  assumes "distinct (map pg_key ps)" and "distinct (map pg_key ps')"
    and "\<And>p. pg_key p = (k, r) \<Longrightarrow> p \<in> set ps' \<longleftrightarrow> p \<in> set ps"
  shows "find_pagamento k r ps' = find_pagamento k r ps"
proof (cases "find_pagamento k r ps")
  case None
  then have "\<forall>p \<in> set ps'. pg_key p \<noteq> (k, r)"
    using assms(3) by (auto simp: find_pagamento_None_iff)
  then have "find_pagamento k r ps' = None" by (simp add: find_pagamento_None_iff)
  then show ?thesis using None by simp
next
  case (Some q)
  then have "q \<in> set ps \<and> pg_key q = (k, r)"
    using assms(1) by (simp add: find_pagamento_iff)
  then have "q \<in> set ps' \<and> pg_key q = (k, r)" using assms(3) by blast
  then show ?thesis using Some assms(2) by (simp add: find_pagamento_iff)
qed

lemma key_unique:
  "distinct (map pg_key ps) \<Longrightarrow> p \<in> set ps \<Longrightarrow> q \<in> set ps \<Longrightarrow> pg_key p = pg_key q \<Longrightarrow> p = q"
  by (auto simp: distinct_map dest: inj_onD)

lemma reconcile_aluno_social_None:
  "al_projeto_social a \<Longrightarrow> find_pagamento (al_id a) ref ps = None \<Longrightarrow>
     reconcile_aluno ref (ps, regs) a = Inr (ps, regs)"
  by (simp add: reconcile_aluno_def)

lemma reconcile_aluno_social_Some:
  "al_projeto_social a \<Longrightarrow> find_pagamento (al_id a) ref ps = Some p \<Longrightarrow>
     reconcile_aluno ref (ps, regs) a = Inr (delete_pagamento p ps, regs)"
  by (simp add: reconcile_aluno_def)

lemma reconcile_aluno_pay_Some:
  "\<not> al_projeto_social a \<Longrightarrow> find_pagamento (al_id a) ref ps = Some q \<Longrightarrow>
     parse_decimal (PyDecimal (al_valor_mensalidade a)) ZERO_00 = Inr v \<Longrightarrow>
     reconcile_aluno ref (ps, regs) a =
       Inr (update_pagamento (q\<lparr>pg_valor := v\<rparr>) ps, regs @ [q\<lparr>pg_valor := v\<rparr>])"
  by (simp add: reconcile_aluno_def Let_def)

lemma reconcile_aluno_pay_None:
  "\<not> al_projeto_social a \<Longrightarrow> find_pagamento (al_id a) ref ps = None \<Longrightarrow>
     parse_decimal (PyDecimal (al_valor_mensalidade a)) ZERO_00 = Inr v \<Longrightarrow>
     reconcile_aluno ref (ps, regs) a =
       Inr (update_pagamento ((new_pagamento (al_id a) ref ps)\<lparr>pg_valor := v\<rparr>)
              (ps @ [new_pagamento (al_id a) ref ps]),
            regs @ [(new_pagamento (al_id a) ref ps)\<lparr>pg_valor := v\<rparr>])"
  by (simp add: reconcile_aluno_def Let_def)

lemma reconcile_aluno_pay_error:
  "\<not> al_projeto_social a \<Longrightarrow>
     parse_decimal (PyDecimal (al_valor_mensalidade a)) ZERO_00 = Inl e \<Longrightarrow>
     reconcile_aluno ref (ps, regs) a = Inl e"
  by (simp add: reconcile_aluno_def)

lemma find_pagamento_others:
  assumes "distinct (map pg_key ps)" and "distinct (map pg_key ps')"
    and "\<And>p. pg_key p \<noteq> (k0, r0) \<Longrightarrow> p \<in> set ps' \<longleftrightarrow> p \<in> set ps"
    and "(k, r) \<noteq> (k0, r0)"
  shows "find_pagamento k r ps' = find_pagamento k r ps"
proof (rule find_pagamento_cong_set [OF assms(1) assms(2)])
  fix p assume "pg_key p = (k, r)"
  then have "pg_key p \<noteq> (k0, r0)" using assms(4) by simp
  then show "p \<in> set ps' \<longleftrightarrow> p \<in> set ps" by (rule assms(3))
qed

lemma step_social:
  assumes wf: "wf_pagamentos ps" and soc: "al_projeto_social a"
  shows "\<exists>ps'. reconcile_aluno ref (ps, regs) a = Inr (ps', regs) \<and> wf_pagamentos ps' \<and>
           find_pagamento (al_id a) ref ps' = None \<and>
           (\<forall>k r. (k, r) \<noteq> (al_id a, ref) \<longrightarrow> find_pagamento k r ps' = find_pagamento k r ps)"
proof (cases "find_pagamento (al_id a) ref ps")
  case None
  have "reconcile_aluno ref (ps, regs) a = Inr (ps, regs)"
    using soc None by (rule reconcile_aluno_social_None)
  then show ?thesis using wf None by blast
next
  case (Some p)
  let ?ps' = "delete_pagamento p ps"
  have dk: "distinct (map pg_key ps)" and di: "distinct (map pg_id ps)"
    using wf by (simp_all add: wf_pagamentos_def)
  have p: "p \<in> set ps" "pg_key p = (al_id a, ref)"
    using Some dk by (simp_all add: find_pagamento_iff)
  have run: "reconcile_aluno ref (ps, regs) a = Inr (?ps', regs)"
    using soc Some by (rule reconcile_aluno_social_Some)
  have wf': "wf_pagamentos ?ps'" using wf by (rule wf_delete)
  have dk': "distinct (map pg_key ?ps')" using wf' by (simp add: wf_pagamentos_def)
  have set': "set ?ps' = set ps - {p}" using di p(1) by (rule delete_pagamento_set)
  have none: "find_pagamento (al_id a) ref ?ps' = None"
    unfolding find_pagamento_None_iff
  proof
    fix q assume "q \<in> set ?ps'"
    then have q: "q \<in> set ps" "q \<noteq> p" using set' by simp_all
    show "pg_key q \<noteq> (al_id a, ref)"
    proof
      assume "pg_key q = (al_id a, ref)"
      then have "pg_key q = pg_key p" using p(2) by simp
      then have "q = p" using dk q(1) p(1) by (rule key_unique [rotated 3])
      then show False using q(2) by simp
    qed
  qed
  have others: "\<forall>k r. (k, r) \<noteq> (al_id a, ref) \<longrightarrow>
      find_pagamento k r ?ps' = find_pagamento k r ps"
  proof (intro allI impI)
    fix k r assume ne: "(k, r) \<noteq> (al_id a, ref)"
    have "\<And>q. pg_key q \<noteq> (al_id a, ref) \<Longrightarrow> q \<in> set ?ps' \<longleftrightarrow> q \<in> set ps"
      using set' p(2) by blast
    then show "find_pagamento k r ?ps' = find_pagamento k r ps"
      using ne by (rule find_pagamento_others [OF dk dk'])
  qed
  show ?thesis using run wf' none others by blast
qed

lemma update_valor_step:
  assumes wf: "wf_pagamentos ps" and q: "q \<in> set ps" and kq: "pg_key q = (k0, r0)"
  shows "wf_pagamentos (update_pagamento (q\<lparr>pg_valor := v\<rparr>) ps)"
    and "find_pagamento k0 r0 (update_pagamento (q\<lparr>pg_valor := v\<rparr>) ps) = Some (q\<lparr>pg_valor := v\<rparr>)"
    and "set (update_pagamento (q\<lparr>pg_valor := v\<rparr>) ps) = insert (q\<lparr>pg_valor := v\<rparr>) (set ps - {q})"
proof -
  let ?p = "q\<lparr>pg_valor := v\<rparr>"
  let ?ps' = "update_pagamento ?p ps"
  have dk: "distinct (map pg_key ps)" and di: "distinct (map pg_id ps)"
    using wf by (simp_all add: wf_pagamentos_def)
  have idp: "pg_id ?p = pg_id q" by simp
  have kp: "pg_key ?p = pg_key q" by (simp add: pg_key_def)
  have ids: "map pg_id ?ps' = map pg_id ps" by (rule update_pagamento_ids)
  have keys: "map pg_key ?ps' = map pg_key ps"
    using di q idp kp by (rule update_pagamento_keys)
  show wf': "wf_pagamentos ?ps'" using wf ids keys by (simp add: wf_pagamentos_def)
  show set': "set ?ps' = insert ?p (set ps - {q})"
    using di q idp by (rule update_pagamento_set)
  have "?p \<in> set ?ps'" using set' by simp
  moreover have "pg_key ?p = (k0, r0)" using kp kq by simp
  moreover have "distinct (map pg_key ?ps')" using keys dk by simp
  ultimately show "find_pagamento k0 r0 ?ps' = Some ?p"
    by (simp add: find_pagamento_iff)
qed

lemma wf_append_new:
  assumes wf: "wf_pagamentos ps" and none: "find_pagamento k r ps = None"
  shows "wf_pagamentos (ps @ [new_pagamento k r ps])"
proof -
  let ?n = "new_pagamento k r ps"
  have "pg_id ?n \<notin> set (map pg_id ps)"
    using next_id_fresh [of "map pg_id ps"] by (simp add: new_pagamento_def)
  moreover have "pg_key ?n = (k, r)" by (simp add: new_pagamento_def pg_key_def)
  then have "pg_key ?n \<notin> set (map pg_key ps)"
    using none by (auto simp: find_pagamento_None_iff)
  ultimately show ?thesis using wf by (simp add: wf_pagamentos_def)
qed

lemma new_pagamento_notin:
  "new_pagamento k r ps \<notin> set ps"
proof
  assume "new_pagamento k r ps \<in> set ps"
  then have "pg_id (new_pagamento k r ps) \<in> set (map pg_id ps)" by (simp add: image_iff) blast
  then show False using next_id_fresh [of "map pg_id ps"] by (simp add: new_pagamento_def)
qed

lemma step_pay:
  assumes wf: "wf_pagamentos ps" and soc: "\<not> al_projeto_social a"
    and v: "parse_decimal (PyDecimal (al_valor_mensalidade a)) ZERO_00 = Inr v"
  shows "\<exists>ps'. reconcile_aluno ref (ps, regs) a =
                 Inr (ps', regs @ [(row_of (al_id a) ref ps)\<lparr>pg_valor := v\<rparr>]) \<and>
           wf_pagamentos ps' \<and>
           find_pagamento (al_id a) ref ps' = Some ((row_of (al_id a) ref ps)\<lparr>pg_valor := v\<rparr>) \<and>
           (\<forall>k r. (k, r) \<noteq> (al_id a, ref) \<longrightarrow> find_pagamento k r ps' = find_pagamento k r ps)"
proof (cases "find_pagamento (al_id a) ref ps")
  case (Some q)
  let ?p = "q\<lparr>pg_valor := v\<rparr>"
  let ?ps' = "update_pagamento ?p ps"
  have dk: "distinct (map pg_key ps)" using wf by (simp add: wf_pagamentos_def)
  have q: "q \<in> set ps" "pg_key q = (al_id a, ref)"
    using Some dk by (simp_all add: find_pagamento_iff)
  have row: "row_of (al_id a) ref ps = q" using Some by (simp add: row_of_def)
  have run: "reconcile_aluno ref (ps, regs) a = Inr (?ps', regs @ [?p])"
    using soc Some v by (rule reconcile_aluno_pay_Some)
  note st = update_valor_step [OF wf q, of v]
  have dk': "distinct (map pg_key ?ps')" using st(1) by (simp add: wf_pagamentos_def)
  have kp: "pg_key ?p = (al_id a, ref)" using q(2) by (simp add: pg_key_def)
  have others: "\<forall>k r. (k, r) \<noteq> (al_id a, ref) \<longrightarrow>
      find_pagamento k r ?ps' = find_pagamento k r ps"
  proof (intro allI impI)
    fix k r assume ne: "(k, r) \<noteq> (al_id a, ref)"
    have "\<And>x. pg_key x \<noteq> (al_id a, ref) \<Longrightarrow> x \<in> set ?ps' \<longleftrightarrow> x \<in> set ps"
      unfolding st(3) using q(2) kp by auto
    then show "find_pagamento k r ?ps' = find_pagamento k r ps"
      using ne by (rule find_pagamento_others [OF dk dk'])
  qed
  show ?thesis using run st(1) st(2) others row by simp
next
  case None
  let ?n = "new_pagamento (al_id a) ref ps"
  let ?ps1 = "ps @ [?n]"
  let ?p = "?n\<lparr>pg_valor := v\<rparr>"
  let ?ps' = "update_pagamento ?p ?ps1"
  have dk: "distinct (map pg_key ps)" using wf by (simp add: wf_pagamentos_def)
  have row: "row_of (al_id a) ref ps = ?n" using None by (simp add: row_of_def)
  have run: "reconcile_aluno ref (ps, regs) a = Inr (?ps', regs @ [?p])"
    using soc None v by (rule reconcile_aluno_pay_None)
  have wf1: "wf_pagamentos ?ps1" using wf None by (rule wf_append_new)
  have n: "?n \<in> set ?ps1" by simp
  have kn: "pg_key ?n = (al_id a, ref)" by (simp add: new_pagamento_def pg_key_def)
  note st = update_valor_step [OF wf1 n kn, of v]
  have dk': "distinct (map pg_key ?ps')" using st(1) by (simp add: wf_pagamentos_def)
  have kp: "pg_key ?p = (al_id a, ref)" using kn by (simp add: pg_key_def)
  have nn: "?n \<notin> set ps" by (rule new_pagamento_notin)
  have set': "set ?ps' = insert ?p (set ps)" using st(3) nn by auto
  have others: "\<forall>k r. (k, r) \<noteq> (al_id a, ref) \<longrightarrow>
      find_pagamento k r ?ps' = find_pagamento k r ps"
  proof (intro allI impI)
    fix k r assume ne: "(k, r) \<noteq> (al_id a, ref)"
    have "\<And>x. pg_key x \<noteq> (al_id a, ref) \<Longrightarrow> x \<in> set ?ps' \<longleftrightarrow> x \<in> set ps"
      unfolding set' using kp by auto
    then show "find_pagamento k r ?ps' = find_pagamento k r ps"
      using ne by (rule find_pagamento_others [OF dk dk'])
  qed
  show ?thesis using run st(1) st(2) others row by simp
qed

lemma reconciled_row_of:
  "reconciled_row ref a (find_pagamento (al_id a) ref ps) v ((row_of (al_id a) ref ps)\<lparr>pg_valor := v\<rparr>)"
  by (cases "find_pagamento (al_id a) ref ps")
     (simp_all add: reconciled_row_def row_of_def new_pagamento_def)

lemma row_post_transfer:
  assumes "row_post ref b ps1 ps'" and "find_pagamento (al_id b) ref ps1 = find_pagamento (al_id b) ref ps"
  shows "row_post ref b ps ps'"
  using assms(1) unfolding row_post_def assms(2) .

lemma loop_post_Cons:
  assumes post: "loop_post ref as ps1 regs1 ps' regs'"
    and fresh: "al_id a \<notin> al_id ` set as"
    and others: "\<forall>k r. (k, r) \<noteq> (al_id a, ref) \<longrightarrow> find_pagamento k r ps1 = find_pagamento k r ps"
    and row: "row_post ref a ps ps1"
    and regs1: "regs1 = regs @ (if al_projeto_social a then [] else [the (find_pagamento (al_id a) ref ps1)])"
  shows "loop_post ref (a # as) ps regs ps' regs'"
proof -
  from post have wf': "wf_pagamentos ps'"
    and regs': "regs' = regs1 @ registros_of ref as ps'"
    and rows: "\<forall>b \<in> set as. row_post ref b ps1 ps'"
    and oth: "\<forall>k r. r \<noteq> ref \<or> k \<notin> al_id ` set as \<longrightarrow> find_pagamento k r ps' = find_pagamento k r ps1"
    by (simp_all add: loop_post_def)
  have fa: "find_pagamento (al_id a) ref ps' = find_pagamento (al_id a) ref ps1"
    using oth fresh by blast
  have rowa: "row_post ref a ps ps'"
    using row unfolding row_post_def fa .
  have rowb: "\<forall>b \<in> set as. row_post ref b ps ps'"
  proof
    fix b assume b: "b \<in> set as"
    then have "al_id b \<in> al_id ` set as" by (rule imageI)
    then have "al_id b \<noteq> al_id a" using fresh by metis
    then have "find_pagamento (al_id b) ref ps1 = find_pagamento (al_id b) ref ps"
      using others by simp
    with rows b show "row_post ref b ps ps'" by (blast intro: row_post_transfer)
  qed
  have r: "regs' = regs @ registros_of ref (a # as) ps'"
    using regs' regs1 fa by (simp add: registros_of_def)
  have o: "\<forall>k r. r \<noteq> ref \<or> k \<notin> al_id ` set (a # as) \<longrightarrow>
             find_pagamento k r ps' = find_pagamento k r ps"
  proof (intro allI impI)
    fix k r assume h: "r \<noteq> ref \<or> k \<notin> al_id ` set (a # as)"
    then have "find_pagamento k r ps' = find_pagamento k r ps1" using oth by auto
    moreover have "(k, r) \<noteq> (al_id a, ref)" using h by auto
    ultimately show "find_pagamento k r ps' = find_pagamento k r ps" using others by simp
  qed
  show ?thesis using wf' r rowa rowb o by (simp add: loop_post_def)
qed

lemma loop_result:
  assumes "wf_pagamentos ps" and "distinct (map al_id as)"
    and "reconcile_loop ref as (ps, regs) = Inr (ps', regs')"
  shows "loop_post ref as ps regs ps' regs'"
  using assms
proof (induction as arbitrary: ps regs)
  case Nil
  then show ?case by (simp add: loop_post_def registros_of_def)
next
  case (Cons a as)
  have fresh: "al_id a \<notin> al_id ` set as" and dist: "distinct (map al_id as)"
    using Cons.prems(2) by simp_all
  show ?case
  proof (cases "al_projeto_social a")
    case True
    from step_social [OF Cons.prems(1) True, of ref regs]
    obtain ps1 where st: "reconcile_aluno ref (ps, regs) a = Inr (ps1, regs)"
      and wf1: "wf_pagamentos ps1"
      and none: "find_pagamento (al_id a) ref ps1 = None"
      and oth: "\<forall>k r. (k, r) \<noteq> (al_id a, ref) \<longrightarrow> find_pagamento k r ps1 = find_pagamento k r ps"
      by blast
    have "reconcile_loop ref as (ps1, regs) = Inr (ps', regs')"
      using Cons.prems(3) st by simp
    then have post: "loop_post ref as ps1 regs ps' regs'"
      using wf1 dist by (rule Cons.IH [rotated 2])
    have row: "row_post ref a ps ps1" using True none by (simp add: row_post_def)
    show ?thesis
      using post fresh oth row by (rule loop_post_Cons) (simp add: True)
  next
    case False
    show ?thesis
    proof (cases "parse_decimal (PyDecimal (al_valor_mensalidade a)) ZERO_00")
      case (Inl e)
      then have "reconcile_aluno ref (ps, regs) a = Inl e"
        using False by (simp add: reconcile_aluno_pay_error)
      then show ?thesis using Cons.prems(3) by simp
    next
      case (Inr v)
      let ?p = "(row_of (al_id a) ref ps)\<lparr>pg_valor := v\<rparr>"
      from step_pay [OF Cons.prems(1) False Inr, of ref regs]
      obtain ps1 where st: "reconcile_aluno ref (ps, regs) a = Inr (ps1, regs @ [?p])"
        and wf1: "wf_pagamentos ps1"
        and some: "find_pagamento (al_id a) ref ps1 = Some ?p"
        and oth: "\<forall>k r. (k, r) \<noteq> (al_id a, ref) \<longrightarrow> find_pagamento k r ps1 = find_pagamento k r ps"
        by blast
      have "reconcile_loop ref as (ps1, regs @ [?p]) = Inr (ps', regs')"
        using Cons.prems(3) st by simp
      then have post: "loop_post ref as ps1 (regs @ [?p]) ps' regs'"
        using wf1 dist by (rule Cons.IH [rotated 2])
      have row: "row_post ref a ps ps1"
        using False Inr some reconciled_row_of [of ref a ps v] by (simp add: row_post_def)
      show ?thesis
        using post fresh oth row by (rule loop_post_Cons) (simp add: False some)
    qed
  qed
qed

lemma reconciled_row_valor: "reconciled_row ref a old v p \<Longrightarrow> pg_valor p = v"
  by (cases old) (auto simp: reconciled_row_def)

lemma row_post_settled: "row_post ref a ps ps' \<Longrightarrow> settled ref a ps'"
  unfolding row_post_def settled_def
  by (auto dest: reconciled_row_valor split: if_splits)

lemma step_settled:
  assumes wf: "wf_pagamentos ps" and s: "settled ref a ps"
  shows "reconcile_aluno ref (ps, regs) a =
           Inr (ps, regs @ (if al_projeto_social a then []
                            else [the (find_pagamento (al_id a) ref ps)]))"
proof (cases "al_projeto_social a")
  case True
  then have "find_pagamento (al_id a) ref ps = None" using s by (simp add: settled_def)
  then show ?thesis using True by (simp add: reconcile_aluno_social_None)
next
  case False
  then obtain p where p: "find_pagamento (al_id a) ref ps = Some p"
    and v: "parse_decimal (PyDecimal (al_valor_mensalidade a)) ZERO_00 = Inr (pg_valor p)"
    using s by (auto simp: settled_def)
  have di: "distinct (map pg_id ps)" using wf by (simp add: wf_pagamentos_def)
  have mem: "p \<in> set ps" using p by (simp add: find_pagamento_SomeD)
  have same: "p\<lparr>pg_valor := pg_valor p\<rparr> = p" by simp
  have "reconcile_aluno ref (ps, regs) a =
          Inr (update_pagamento (p\<lparr>pg_valor := pg_valor p\<rparr>) ps, regs @ [p\<lparr>pg_valor := pg_valor p\<rparr>])"
    using False p v by (rule reconcile_aluno_pay_Some)
  then show ?thesis
    using False p update_pagamento_same [OF di mem] by (simp only: same) simp
qed

lemma loop_fixpoint:
  assumes "wf_pagamentos ps" and "\<forall>a \<in> set as. settled ref a ps"
  shows "reconcile_loop ref as (ps, regs) = Inr (ps, regs @ registros_of ref as ps)"
  using assms(2)
proof (induction as arbitrary: regs)
  case Nil
  then show ?case by (simp add: registros_of_def)
next
  case (Cons a as)
  have st: "reconcile_aluno ref (ps, regs) a =
           Inr (ps, regs @ (if al_projeto_social a then []
                            else [the (find_pagamento (al_id a) ref ps)]))"
    using assms(1) Cons.prems by (simp add: step_settled)
  have "\<forall>a \<in> set as. settled ref a ps" using Cons.prems by simp
  then have ih: "\<And>regs. reconcile_loop ref as (ps, regs) = Inr (ps, regs @ registros_of ref as ps)"
    by (rule Cons.IH)
  show ?case by (simp add: st ih registros_of_def)
qed

lemma distinct_order_by_nome:
  "distinct (map al_id as) \<Longrightarrow> distinct (map al_id (order_by_nome as))"
  by (simp add: order_by_nome_def distinct_map)

lemma set_order_by_nome: "set (order_by_nome as) = set as"
  by (simp add: order_by_nome_def)

lemma run_post:
  assumes c: "db_constraints db"
    and run: "pagamentos_do_mes_referencia M db = Inr (db', registros, res)"
  shows "loop_post M (order_by_nome (db_alunos db)) (db_pagamentos db) [] (db_pagamentos db') registros"
    and "db' = db\<lparr>db_pagamentos := db_pagamentos db'\<rparr>"
    and "resumir registros = Inr res"
proof -
  let ?as = "order_by_nome (db_alunos db)"
  from run obtain st where loop: "reconcile_loop M ?as (db_pagamentos db, []) = Inr st"
    and rest: "(case resumir (snd st) of Inl e \<Rightarrow> Inl e
                | Inr r \<Rightarrow> Inr (db\<lparr>db_pagamentos := fst st\<rparr>, snd st, r)) = Inr (db', registros, res)"
    by (auto simp: pagamentos_do_mes_referencia_def split: sum.splits)
  from rest have r: "resumir (snd st) = Inr res" and d: "db' = db\<lparr>db_pagamentos := fst st\<rparr>"
    and g: "registros = snd st"
    by (auto split: sum.splits)
  have wf: "wf_pagamentos (db_pagamentos db)" and da: "distinct (map al_id ?as)"
    using c by (simp_all add: db_constraints_def wf_pagamentos_def distinct_order_by_nome)
  have "reconcile_loop M ?as (db_pagamentos db, []) = Inr (fst st, snd st)" using loop by simp
  with wf da have "loop_post M ?as (db_pagamentos db) [] (fst st) (snd st)" by (rule loop_result)
  then show "loop_post M ?as (db_pagamentos db) [] (db_pagamentos db') registros"
    using d g by simp
  show "db' = db\<lparr>db_pagamentos := db_pagamentos db'\<rparr>" using d by simp
  show "resumir registros = Inr res" using r g by simp
qed

lemma run_constraints:
  assumes c: "db_constraints db"
    and run: "pagamentos_do_mes_referencia M db = Inr (db', registros, res)"
  shows "db_constraints db'"
proof -
  note p = run_post [OF c run]
  have "wf_pagamentos (db_pagamentos db')" using p(1) by (simp add: loop_post_def)
  then show ?thesis using c by (subst p(2)) (simp add: db_constraints_def wf_pagamentos_def)
qed

text \<open>The equations that evaluate the model on concrete data.\<close>

lemmas eval_defs =
  order_by_nome_def mk_aluno_def mk_pagamento_def mk_date_def less_eq_char_def less_char_def
  parse_decimal_def quantize_def ndigits.simps Emax_def prec_def rescale2_def Let_def
  reconcile_aluno_def find_pagamento_def new_pagamento_def update_pagamento_def
  delete_pagamento_def next_id_def ZERO_00_def round_half_even_def
  resumir_def py_add_def py_sub_def dec_sub_def check_nans_def dec_fix_def Etiny_def Etop_def
  signed_def Decimal_of_int_def pagamentos_do_mes_referencia_def

lemma example_run:
  "pagamentos_do_mes_referencia (mk_date 2024 3 1) example_db =
     Inr (example_db_after, example_registros, example_resumo)"
  by (simp add: example_db_def example_db_after_def example_registros_def example_resumo_def eval_defs)

lemma example_constraints: "db_constraints example_db"
  by (simp add: db_constraints_def example_db_def pg_key_def pr_key_def eval_defs)

text \<open>
  Claim C1.  Reconciliation is idempotent: on a database that satisfies its declared
  constraints, when reconciliation of month \<open>M\<close> returns, running it again on the resulting
  database returns the same database, the same rows in the same order and the same summary.
\<close>

theorem reconciliation_idempotent:
  assumes c: "db_constraints db"
    and run: "pagamentos_do_mes_referencia M db = Inr (db', registros, res)"
  shows "pagamentos_do_mes_referencia M db' = Inr (db', registros, res)"
proof -
  let ?as = "order_by_nome (db_alunos db)"
  note p = run_post [OF c run]
  have al: "db_alunos db' = db_alunos db" by (subst p(2)) simp
  have wf': "wf_pagamentos (db_pagamentos db')"
    and regs: "registros = registros_of M ?as (db_pagamentos db')"
    and rows: "\<forall>a \<in> set ?as. row_post M a (db_pagamentos db) (db_pagamentos db')"
    using p(1) by (simp_all add: loop_post_def)
  have "\<forall>a \<in> set ?as. settled M a (db_pagamentos db')"
    using rows by (blast intro: row_post_settled)
  with wf' have "reconcile_loop M ?as (db_pagamentos db', []) =
      Inr (db_pagamentos db', [] @ registros_of M ?as (db_pagamentos db'))"
    by (rule loop_fixpoint)
  then have loop: "reconcile_loop M (order_by_nome (db_alunos db')) (db_pagamentos db', []) =
      Inr (db_pagamentos db', registros)"
    using regs al by simp
  show ?thesis
    by (simp add: pagamentos_do_mes_referencia_def loop p(3))
qed

theorem reconciliation_idempotent_witness:
  "db_constraints example_db \<and>
   pagamentos_do_mes_referencia (mk_date 2024 3 1) example_db =
     Inr (example_db_after, example_registros, example_resumo) \<and>
   pagamentos_do_mes_referencia (mk_date 2024 3 1) example_db_after =
     Inr (example_db_after, example_registros, example_resumo)"
  using reconciliation_idempotent [OF example_constraints example_run]
    example_constraints example_run
  by simp

lemma length_filter_eq_distinct:
  "distinct xs \<Longrightarrow> length (filter (\<lambda>b. b = a) xs) = (if a \<in> set xs then 1 else 0)"
  by (induction xs) auto

lemma find_pagamento_key:
  "find_pagamento k r ps = find (\<lambda>p. pg_key p = (k, r)) ps"
  by (simp add: find_pagamento_def pg_key_def)

lemma row_post_Some:
  "row_post M b ps ps' \<Longrightarrow> \<not> al_projeto_social b \<Longrightarrow>
     \<exists>p. find_pagamento (al_id b) M ps' = Some p"
  by (simp add: row_post_def) blast

lemma length_filter_key:
  "distinct (map pg_key ps) \<Longrightarrow>
     length (filter (\<lambda>p. pg_key p = (k, r)) ps) =
       (case find_pagamento k r ps of None \<Rightarrow> 0 | Some q \<Rightarrow> 1)"
proof (induction ps)
  case Nil
  then show ?case by (simp add: find_pagamento_key)
next
  case (Cons p ps)
  show ?case
  proof (cases "pg_key p = (k, r)")
    case True
    have notin: "(k, r) \<notin> pg_key ` set ps" using Cons.prems True by simp
    have "\<forall>q \<in> set ps. pg_key q \<noteq> (k, r)"
    proof
      fix q assume "q \<in> set ps"
      then have "pg_key q \<in> pg_key ` set ps" by (rule imageI)
      then show "pg_key q \<noteq> (k, r)" using notin by metis
    qed
    then have "filter (\<lambda>p. pg_key p = (k, r)) ps = []" by (simp add: filter_empty_conv)
    then show ?thesis using True by (simp add: find_pagamento_key)
  next
    case False
    then show ?thesis using Cons by (simp add: find_pagamento_key)
  qed
qed

lemma run_rows:
  assumes c: "db_constraints db"
    and run: "pagamentos_do_mes_referencia M db = Inr (db', registros, res)"
    and a: "a \<in> set (db_alunos db)"
  shows "row_post M a (db_pagamentos db) (db_pagamentos db')"
  using run_post(1) [OF c run] a by (simp add: loop_post_def set_order_by_nome)

lemma run_registros:
  assumes c: "db_constraints db"
    and run: "pagamentos_do_mes_referencia M db = Inr (db', registros, res)"
  shows "registros = registros_of M (order_by_nome (db_alunos db)) (db_pagamentos db')"
  using run_post(1) [OF c run] by (simp add: loop_post_def)

lemma registros_member:
  assumes c: "db_constraints db"
    and run: "pagamentos_do_mes_referencia M db = Inr (db', registros, res)"
    and p: "p \<in> set registros"
  shows "\<exists>b \<in> set (db_alunos db). \<not> al_projeto_social b \<and>
           find_pagamento (al_id b) M (db_pagamentos db') = Some p"
proof -
  from p obtain b where b: "b \<in> set (db_alunos db)" "\<not> al_projeto_social b"
    and pb: "p = the (find_pagamento (al_id b) M (db_pagamentos db'))"
    unfolding run_registros [OF c run] registros_of_def by (auto simp: set_order_by_nome)
  have "row_post M b (db_pagamentos db) (db_pagamentos db')" using c run b(1) by (rule run_rows)
  then obtain q where "find_pagamento (al_id b) M (db_pagamentos db') = Some q"
    using b(2) by (auto simp: row_post_def)
  then show ?thesis using b pb by auto
qed

lemma registros_of_count:
  assumes d: "distinct (map al_id as)" and a: "a \<in> set as"
    and rows: "\<forall>b \<in> set as. \<not> al_projeto_social b \<longrightarrow> (\<exists>p. find_pagamento (al_id b) M ps = Some p)"
  shows "length (filter (\<lambda>p. pg_aluno_id p = al_id a) (registros_of M as ps)) =
           (if al_projeto_social a then 0 else 1)"
proof -
  let ?g = "\<lambda>b. the (find_pagamento (al_id b) M ps)"
  let ?ns = "filter (\<lambda>b. \<not> al_projeto_social b) as"
  have inj: "inj_on al_id (set as)" and das: "distinct as" using d by (simp_all add: distinct_map)
  have g: "\<And>b. b \<in> set ?ns \<Longrightarrow> (pg_aluno_id (?g b) = al_id a) = (b = a)"
  proof -
    fix b assume b: "b \<in> set ?ns"
    then obtain p where "find_pagamento (al_id b) M ps = Some p" using rows by auto
    then have "pg_aluno_id (?g b) = al_id b" by (simp add: find_pagamento_SomeD)
    moreover have "(al_id b = al_id a) = (b = a)" using inj a b by (auto dest: inj_onD)
    ultimately show "(pg_aluno_id (?g b) = al_id a) = (b = a)" by simp
  qed
  have "filter (\<lambda>p. pg_aluno_id p = al_id a) (registros_of M as ps) =
          map ?g (filter (\<lambda>b. pg_aluno_id (?g b) = al_id a) ?ns)"
    by (simp add: registros_of_def filter_map comp_def)
  also have "filter (\<lambda>b. pg_aluno_id (?g b) = al_id a) ?ns = filter (\<lambda>b. b = a) ?ns"
    using g by (rule filter_cong [OF refl])
  finally have "length (filter (\<lambda>p. pg_aluno_id p = al_id a) (registros_of M as ps)) =
          length (filter (\<lambda>b. b = a) ?ns)" by simp
  also have "\<dots> = (if a \<in> set ?ns then 1 else 0)"
  proof -
    have "distinct ?ns" using das by simp
    then show ?thesis by (rule length_filter_eq_distinct)
  qed
  finally show ?thesis using a by simp
qed

text \<open>
  Claim C2, as amended.  After reconciliation of month \<open>M\<close> has run, the returned rows hold
  exactly one row for every student who is not on scholarship, whatever the student's
  status, and none for a scholarship student; every returned row is the row of month \<open>M\<close>
  of such a student, and the table holds exactly one row of month \<open>M\<close> for a student who
  is not on scholarship and none for a scholarship student.
\<close>

theorem reconciliation_one_row_per_paying_student:
  assumes c: "db_constraints db"
    and run: "pagamentos_do_mes_referencia M db = Inr (db', registros, res)"
    and a: "a \<in> set (db_alunos db)"
  shows "length (filter (\<lambda>p. pg_aluno_id p = al_id a) registros) =
           (if al_projeto_social a then 0 else 1) \<and>
         length (filter (\<lambda>p. pg_key p = (al_id a, M)) (db_pagamentos db')) =
           (if al_projeto_social a then 0 else 1) \<and>
         (\<forall>p \<in> set registros. pg_competencia p = M \<and> p \<in> set (db_pagamentos db') \<and>
            (\<exists>b \<in> set (db_alunos db). \<not> al_projeto_social b \<and> pg_aluno_id p = al_id b))"
proof -
  let ?as = "order_by_nome (db_alunos db)"
  let ?ps' = "db_pagamentos db'"
  have d: "distinct (map al_id ?as)"
    using c by (simp add: db_constraints_def distinct_order_by_nome)
  have a': "a \<in> set ?as" using a by (simp add: set_order_by_nome)
  have rows: "\<forall>b \<in> set ?as. row_post M b (db_pagamentos db) ?ps'"
    using run_post(1) [OF c run] by (simp add: loop_post_def)
  then have ex: "\<forall>b \<in> set ?as. \<not> al_projeto_social b \<longrightarrow>
      (\<exists>p. find_pagamento (al_id b) M ?ps' = Some p)"
    by (blast dest: row_post_Some)
  have one: "length (filter (\<lambda>p. pg_aluno_id p = al_id a) registros) =
           (if al_projeto_social a then 0 else 1)"
    unfolding run_registros [OF c run] using d a' ex by (rule registros_of_count)
  have dk: "distinct (map pg_key ?ps')"
    using run_constraints [OF c run] by (simp add: db_constraints_def)
  have ra: "row_post M a (db_pagamentos db) ?ps'" using c run a by (rule run_rows)
  have tab: "length (filter (\<lambda>p. pg_key p = (al_id a, M)) ?ps') =
           (if al_projeto_social a then 0 else 1)"
    using ra by (auto simp: length_filter_key [OF dk] row_post_def)
  have mem: "\<forall>p \<in> set registros. pg_competencia p = M \<and> p \<in> set ?ps' \<and>
            (\<exists>b \<in> set (db_alunos db). \<not> al_projeto_social b \<and> pg_aluno_id p = al_id b)"
  proof
    fix p assume "p \<in> set registros"
    with c run obtain b where b: "b \<in> set (db_alunos db)" "\<not> al_projeto_social b"
      and f: "find_pagamento (al_id b) M ?ps' = Some p"
      using registros_member by blast
    from f have "p \<in> set ?ps' \<and> pg_aluno_id p = al_id b \<and> pg_competencia p = M"
      by (rule find_pagamento_SomeD)
    then show "pg_competencia p = M \<and> p \<in> set ?ps' \<and>
            (\<exists>b \<in> set (db_alunos db). \<not> al_projeto_social b \<and> pg_aluno_id p = al_id b)"
      using b by blast
  qed
  show ?thesis using one tab mem by blast
qed

text \<open>
  Claim C3.  After reconciliation of month \<open>M\<close> has run, a scholarship student has no payment
  row of month \<open>M\<close> in the table, whatever was there before, and is the student of no
  returned row.
\<close>

theorem reconciliation_scholarship_has_no_row:
  assumes c: "db_constraints db"
    and run: "pagamentos_do_mes_referencia M db = Inr (db', registros, res)"
    and a: "a \<in> set (db_alunos db)"
    and s: "al_projeto_social a"
  shows "find_pagamento (al_id a) M (db_pagamentos db') = None \<and>
         (\<forall>p \<in> set (db_pagamentos db'). \<not> (pg_aluno_id p = al_id a \<and> pg_competencia p = M)) \<and>
         (\<forall>p \<in> set registros. pg_aluno_id p \<noteq> al_id a)"
proof -
  have ra: "row_post M a (db_pagamentos db) (db_pagamentos db')" using c run a by (rule run_rows)
  then have none: "find_pagamento (al_id a) M (db_pagamentos db') = None"
    using s by (simp add: row_post_def)
  then have tab: "\<forall>p \<in> set (db_pagamentos db'). \<not> (pg_aluno_id p = al_id a \<and> pg_competencia p = M)"
    by (auto simp: find_pagamento_None_iff pg_key_def)
  have inj: "inj_on al_id (set (db_alunos db))"
    using c by (simp add: db_constraints_def distinct_map)
  have regs: "\<forall>p \<in> set registros. pg_aluno_id p \<noteq> al_id a"
  proof
    fix p assume "p \<in> set registros"
    with c run obtain b where b: "b \<in> set (db_alunos db)" "\<not> al_projeto_social b"
      and f: "find_pagamento (al_id b) M (db_pagamentos db') = Some p"
      using registros_member by blast
    have "b \<noteq> a" using b(2) s by auto
    then have "al_id b \<noteq> al_id a" using inj a b(1) by (auto dest: inj_onD)
    moreover have "pg_aluno_id p = al_id b" using f by (simp add: find_pagamento_SomeD)
    ultimately show "pg_aluno_id p \<noteq> al_id a" by simp
  qed
  show ?thesis using none tab regs by blast
qed

text \<open>
  Claim C4.  For a student who is not on scholarship, after reconciliation of month \<open>M\<close>
  has run the table holds the student's row of month \<open>M\<close>, which is one of the returned
  rows; its \<open>valor\<close> is the student's current monthly fee, quantized by \<open>parse_decimal\<close>; a row
  that existed before is that row with only \<open>valor\<close> overwritten, so its \<open>pago\<close> flag and
  \<open>data_pagamento\<close> are unchanged, paid or not; a row created now is unpaid.
\<close>

theorem reconciliation_overwrites_only_valor:
  assumes c: "db_constraints db"
    and run: "pagamentos_do_mes_referencia M db = Inr (db', registros, res)"
    and a: "a \<in> set (db_alunos db)"
    and s: "\<not> al_projeto_social a"
  shows "\<exists>v p. parse_decimal (PyDecimal (al_valor_mensalidade a)) ZERO_00 = Inr v \<and>
           find_pagamento (al_id a) M (db_pagamentos db') = Some p \<and>
           p \<in> set registros \<and> pg_valor p = v \<and>
           (\<forall>q. find_pagamento (al_id a) M (db_pagamentos db) = Some q \<longrightarrow>
                p = q\<lparr>pg_valor := v\<rparr> \<and> pg_pago p = pg_pago q \<and>
                pg_data_pagamento p = pg_data_pagamento q) \<and>
           (find_pagamento (al_id a) M (db_pagamentos db) = None \<longrightarrow>
                \<not> pg_pago p \<and> pg_data_pagamento p = None)"
proof -
  let ?old = "find_pagamento (al_id a) M (db_pagamentos db)"
  have ra: "row_post M a (db_pagamentos db) (db_pagamentos db')" using c run a by (rule run_rows)
  then obtain v p where v: "parse_decimal (PyDecimal (al_valor_mensalidade a)) ZERO_00 = Inr v"
    and f: "find_pagamento (al_id a) M (db_pagamentos db') = Some p"
    and r: "reconciled_row M a ?old v p"
    using s by (auto simp: row_post_def)
  have pv: "pg_valor p = v" using r by (rule reconciled_row_valor)
  have "p = the (find_pagamento (al_id a) M (db_pagamentos db'))" using f by simp
  then have mem: "p \<in> set registros"
    unfolding run_registros [OF c run] registros_of_def using a s
    by (auto simp: set_order_by_nome image_iff)
  have old: "\<forall>q. ?old = Some q \<longrightarrow>
                p = q\<lparr>pg_valor := v\<rparr> \<and> pg_pago p = pg_pago q \<and>
                pg_data_pagamento p = pg_data_pagamento q"
    using r by (auto simp: reconciled_row_def)
  have new: "?old = None \<longrightarrow> \<not> pg_pago p \<and> pg_data_pagamento p = None"
    using r by (auto simp: reconciled_row_def)
  show ?thesis
    using v f mem pv old new by (intro exI [of _ v] exI [of _ p] conjI) assumption+
qed

lemma parse_decimal_PyDecimal [simp]: "parse_decimal (PyDecimal d) dflt = quantize d"
  by (simp add: parse_decimal_def)

lemma quantize_idem:
  assumes "quantize d = Inr q"
  shows "quantize q = Inr q"
proof (cases d)
  case (Fin s c e)
  show ?thesis
  proof (cases "c = 0")
    case True
    then have "q = Fin s 0 (- 2)" using assms Fin by (simp add: quantize_def)
    then show ?thesis by (simp add: quantize_def)
  next
    case False
    then have q: "q = Fin s (rescale2 c e) (- 2)" and n: "ndigits (rescale2 c e) \<le> prec"
      using assms Fin by (auto simp: quantize_def Let_def split: if_splits)
    have r: "rescale2 (rescale2 c e) (- 2) = rescale2 c e" by (simp add: rescale2_def)
    have "int (ndigits (rescale2 c e)) \<le> int prec" using n by simp
    then show ?thesis using n
      unfolding q quantize_def by (simp add: Let_def r Emax_def prec_def)
  qed
next
  case (Infinity s)
  then show ?thesis using assms by (simp add: quantize_def)
next
  case (NaN s p)
  then have "q = NaN s (p mod 10 ^ prec)" using assms by (simp add: quantize_def)
  then show ?thesis by (simp add: quantize_def)
next
  case (SNaN s p)
  then show ?thesis using assms by (simp add: quantize_def)
qed

lemma sum_valores_py_sum:
  assumes "\<forall>r \<in> set rs. quantize (pg_valor r) = Inr (pg_valor r)"
  shows "sum_valores acc rs = py_sum_from acc (map pg_valor rs)"
  using assms by (induction rs arbitrary: acc) (auto split: sum.splits)

lemma registros_quantized:
  assumes c: "db_constraints db"
    and run: "pagamentos_do_mes_referencia M db = Inr (db', registros, res)"
    and p: "p \<in> set registros"
  shows "quantize (pg_valor p) = Inr (pg_valor p)"
proof -
  from registros_member [OF c run p]
  obtain b where b: "b \<in> set (db_alunos db)" "\<not> al_projeto_social b"
    and f: "find_pagamento (al_id b) M (db_pagamentos db') = Some p" by blast
  have "row_post M b (db_pagamentos db) (db_pagamentos db')" using c run b(1) by (rule run_rows)
  then obtain v q where v: "quantize (al_valor_mensalidade b) = Inr v"
    and fq: "find_pagamento (al_id b) M (db_pagamentos db') = Some q"
    and r: "reconciled_row M b (find_pagamento (al_id b) M (db_pagamentos db)) v q"
    using b(2) by (auto simp: row_post_def)
  have "pg_valor q = v" using r by (rule reconciled_row_valor)
  moreover have "q = p" using f fq by simp
  ultimately have "quantize (al_valor_mensalidade b) = Inr (pg_valor p)" using v by simp
  then show ?thesis by (rule quantize_idem)
qed

lemma resumir_fields:
  assumes "resumir registros = Inr res"
  shows "pagos res = int (length (filter pg_pago registros))"
    and "pendentes res = int (length registros) - pagos res"
    and "percentual res = (if registros = [] then Zero_float
                           else Round_pct (pagos res) (int (length registros)))"
    and "sum_valores (PInt 0) registros = Inr (valor_previsto res)"
    and "sum_valores (PInt 0) (filter pg_pago registros) = Inr (valor_pago res)"
    and "py_sub (valor_previsto res) (valor_pago res) = Inr (valor_pendente res)"
  using assms by (auto simp: resumir_def Let_def split: sum.splits)

lemma length_filter_not:
  "int (length (filter (\<lambda>p. \<not> P p) xs)) = int (length xs) - int (length (filter P xs))"
  using sum_length_filter_compl [of P xs] by simp

lemma ndigits_le: "c < 10 ^ n \<Longrightarrow> 0 < n \<Longrightarrow> ndigits c \<le> n"
proof (induction n arbitrary: c)
  case 0
  then show ?case by simp
next
  case (Suc n)
  show ?case
  proof (cases "c < 10")
    case True
    then show ?thesis by (simp add: ndigits.simps)
  next
    case False
    have lt: "c div 10 < 10 ^ n" using Suc.prems(1) by (simp add: less_mult_imp_div_less mult.commute)
    have "0 < n"
    proof (rule ccontr)
      assume "\<not> 0 < n"
      then have "c < 10" using Suc.prems(1) by simp
      then show False using False by simp
    qed
    with lt have "ndigits (c div 10) \<le> n" by (rule Suc.IH)
    then show ?thesis using False by (subst ndigits.simps) simp
  qed
qed

lemma dec_fix_small:
  assumes "c < 10 ^ 28"
  shows "dec_fix (Fin s c (- 2)) = Inr (Fin s c (- 2))"
proof (cases "c = 0")
  case True
  then show ?thesis by (simp add: dec_fix_def Etiny_def Emax_def prec_def)
next
  case False
  have "ndigits c \<le> 28" using assms by (rule ndigits_le) simp
  then have "int (ndigits c) \<le> 28" by simp
  then show ?thesis using False
    by (simp add: dec_fix_def Let_def Etiny_def Etop_def Emax_def prec_def)
qed

lemma signed_abs: "\<bar>signed s c\<bar> = int c"
  by (simp add: signed_def)

lemma signed_of_int: "v \<noteq> 0 \<Longrightarrow> signed (v < 0) (nat \<bar>v\<bar>) = v"
  by (simp add: signed_def)

lemma dec_add_money:
  assumes "\<bar>signed sa ca + signed sb cb\<bar> < 10 ^ 28"
  shows "\<exists>s c. dec_add (Fin sa ca (- 2)) (Fin sb cb (- 2)) = Inr (Fin s c (- 2)) \<and>
           signed s c = signed sa ca + signed sb cb"
proof -
  let ?v = "signed sa ca + signed sb cb"
  consider (zz) "ca = 0" "cb = 0" | (za) "ca = 0" "cb \<noteq> 0" | (zb) "ca \<noteq> 0" "cb = 0"
    | (nz) "ca \<noteq> 0" "cb \<noteq> 0" "?v = 0" | (nn) "ca \<noteq> 0" "cb \<noteq> 0" "?v \<noteq> 0"
    by blast
  then show ?thesis
  proof cases
    case zz
    then show ?thesis by (simp add: dec_fix_small signed_def)
  next
    case za
    then have "cb < 10 ^ 28" using assms by (simp add: signed_def split: if_splits)
    then show ?thesis using za by (simp add: dec_fix_small signed_def prec_def)
  next
    case zb
    then have "ca < 10 ^ 28" using assms by (simp add: signed_def split: if_splits)
    then show ?thesis using zb by (simp add: dec_fix_small signed_def prec_def)
  next
    case nz
    have "dec_add (Fin sa ca (- 2)) (Fin sb cb (- 2)) = Inr (Fin False 0 (- 2))"
      using nz by (simp add: dec_fix_small Let_def)
    moreover have "signed False 0 = ?v" using nz by (simp add: signed_def)
    ultimately show ?thesis by blast
  next
    case nn
    have "nat \<bar>?v\<bar> < 10 ^ 28" using assms by (simp add: nat_less_iff)
    then have "dec_fix (Fin (?v < 0) (nat \<bar>?v\<bar>) (- 2)) = Inr (Fin (?v < 0) (nat \<bar>?v\<bar>) (- 2))"
      by (rule dec_fix_small)
    moreover have "dec_add (Fin sa ca (- 2)) (Fin sb cb (- 2)) = dec_fix (Fin (?v < 0) (nat \<bar>?v\<bar>) (- 2))"
      using nn by (simp add: Let_def)
    ultimately show ?thesis using signed_of_int [OF nn(3)] by auto
  qed
qed

lemma dec_add_money_zero:
  assumes "c < 10 ^ 28"
  shows "\<exists>s'. dec_add (Fin s c (- 2)) (Fin z 0 0) = Inr (Fin s' c (- 2)) \<and> signed s' c = signed s c"
    and "\<exists>s'. dec_add (Fin z 0 0) (Fin s c (- 2)) = Inr (Fin s' c (- 2)) \<and> signed s' c = signed s c"
  using assms by (auto simp: dec_fix_small signed_def prec_def Let_def)

lemma money_acc_cents: "money_acc x a \<Longrightarrow> cents x = Some a"
  by (auto simp: money_acc_def)

lemma is_money_cases:
  assumes "is_money v"
  obtains s c where "v = Fin s c (- 2)"
  using assms by (cases v) auto

lemma py_add_money:
  assumes acc: "money_acc x a" and v: "is_money v"
    and b: "\<bar>a + valor_cents v\<bar> < 10 ^ 28"
  shows "\<exists>r. py_add x v = Inr r \<and> money_acc r (a + valor_cents v)"
proof -
  from v obtain s c where vd: "v = Fin s c (- 2)" by (rule is_money_cases)
  from acc consider (int) "x = PInt 0" "a = 0" | (dec) sa ca where "x = PDec (Fin sa ca (- 2))" "a = signed sa ca"
    by (auto simp: money_acc_def)
  then show ?thesis
  proof cases
    case int
    have "c < 10 ^ 28" using b int(2) vd by (simp add: signed_def split: if_splits)
    from dec_add_money_zero(1) [OF this, of s False]
    obtain s' where "dec_add (Fin s c (- 2)) (Fin False 0 0) = Inr (Fin s' c (- 2))"
      and "signed s' c = signed s c" by blast
    then show ?thesis using int vd
      by (simp add: py_add_def Decimal_of_int_def money_acc_def)
  next
    case dec
    have "\<bar>signed sa ca + signed s c\<bar> < 10 ^ 28" using b dec(2) vd by simp
    from dec_add_money [OF this]
    obtain s' c' where "dec_add (Fin sa ca (- 2)) (Fin s c (- 2)) = Inr (Fin s' c' (- 2))"
      and "signed s' c' = signed sa ca + signed s c" by blast
    then show ?thesis using dec vd
      by (simp add: py_add_def money_acc_def)
  qed
qed

lemma py_sum_from_money:
  assumes "money_acc x a" and "\<forall>v \<in> set vs. is_money v"
    and "\<bar>a\<bar> + sum_list (map (\<lambda>v. \<bar>valor_cents v\<bar>) vs) < 10 ^ 28"
  shows "\<exists>r. py_sum_from x vs = Inr r \<and> money_acc r (a + sum_list (map valor_cents vs))"
  using assms
proof (induction vs arbitrary: x a)
  case Nil
  then show ?case by simp
next
  case (Cons v vs)
  have v: "is_money v" and vs: "\<forall>w \<in> set vs. is_money w" using Cons.prems(2) by simp_all
  have bnd: "\<bar>a\<bar> + \<bar>valor_cents v\<bar> + sum_list (map (\<lambda>v. \<bar>valor_cents v\<bar>) vs) < 10 ^ 28"
    using Cons.prems(3) by simp
  have nonneg: "0 \<le> sum_list (map (\<lambda>v. \<bar>valor_cents v\<bar>) vs)"
    by (rule sum_list_nonneg) auto
  have b1: "\<bar>a + valor_cents v\<bar> < 10 ^ 28" using bnd nonneg by linarith
  from py_add_money [OF Cons.prems(1) v b1]
  obtain r where r: "py_add x v = Inr r" and mr: "money_acc r (a + valor_cents v)" by blast
  have b2: "\<bar>a + valor_cents v\<bar> + sum_list (map (\<lambda>v. \<bar>valor_cents v\<bar>) vs) < 10 ^ 28"
    using bnd by linarith
  from Cons.IH [OF mr vs b2]
  obtain r' where "py_sum_from r vs = Inr r'"
    and "money_acc r' (a + valor_cents v + sum_list (map valor_cents vs))" by blast
  then show ?case using r by (simp add: add.assoc)
qed

lemma py_sub_money:
  assumes x: "money_acc x a" and y: "money_acc y b"
    and bd: "\<bar>a - b\<bar> < 10 ^ 28" and ba: "\<bar>a\<bar> < 10 ^ 28" and bb: "\<bar>b\<bar> < 10 ^ 28"
  shows "\<exists>r. py_sub x y = Inr r \<and> money_acc r (a - b)"
proof -
  from x consider (xi) "x = PInt 0" "a = 0" | (xd) sa ca where "x = PDec (Fin sa ca (- 2))" "a = signed sa ca"
    by (auto simp: money_acc_def)
  then show ?thesis
  proof cases
    case xi
    from y consider (yi) "y = PInt 0" "b = 0" | (yd) sb cb where "y = PDec (Fin sb cb (- 2))" "b = signed sb cb"
      by (auto simp: money_acc_def)
    then show ?thesis
    proof cases
      case yi
      then show ?thesis using xi by (simp add: py_sub_def money_acc_def)
    next
      case yd
      have "cb < 10 ^ 28" using bb yd(2) by (simp add: signed_def split: if_splits)
      from dec_add_money_zero(2) [OF this, of False "\<not> sb"]
      obtain s' where "dec_add (Fin False 0 0) (Fin (\<not> sb) cb (- 2)) = Inr (Fin s' cb (- 2))"
        and "signed s' cb = signed (\<not> sb) cb" by blast
      then show ?thesis using xi yd
        by (simp add: py_sub_def dec_sub_def check_nans_def Decimal_of_int_def money_acc_def signed_def)
    qed
  next
    case xd
    from y consider (yi) "y = PInt 0" "b = 0" | (yd) sb cb where "y = PDec (Fin sb cb (- 2))" "b = signed sb cb"
      by (auto simp: money_acc_def)
    then show ?thesis
    proof cases
      case yi
      have "ca < 10 ^ 28" using ba xd(2) by (simp add: signed_def split: if_splits)
      from dec_add_money_zero(1) [OF this, of sa True]
      obtain s' where "dec_add (Fin sa ca (- 2)) (Fin True 0 0) = Inr (Fin s' ca (- 2))"
        and "signed s' ca = signed sa ca" by blast
      then show ?thesis using xd yi
        by (simp add: py_sub_def dec_sub_def check_nans_def Decimal_of_int_def money_acc_def)
    next
      case yd
      have neg: "signed (\<not> sb) cb = - signed sb cb" by (simp add: signed_def)
      have "\<bar>signed sa ca + signed (\<not> sb) cb\<bar> < 10 ^ 28" using bd xd(2) yd(2) neg by simp
      from dec_add_money [OF this]
      obtain s' c' where "dec_add (Fin sa ca (- 2)) (Fin (\<not> sb) cb (- 2)) = Inr (Fin s' c' (- 2))"
        and "signed s' c' = signed sa ca + signed (\<not> sb) cb" by blast
      then show ?thesis using xd yd neg
        by (simp add: py_sub_def dec_sub_def check_nans_def money_acc_def)
    qed
  qed
qed

lemma sum_list_abs_filter_le:
  "sum_list (map (\<lambda>x. \<bar>f x :: int\<bar>) (filter P xs)) \<le> sum_list (map (\<lambda>x. \<bar>f x\<bar>) xs)"
  by (induction xs) auto

lemma abs_sum_list_le: "\<bar>sum_list (map f xs) :: int\<bar> \<le> sum_list (map (\<lambda>x. \<bar>f x\<bar>) xs)"
  by (induction xs) auto

lemma abs_sum_diff_filter_le:
  "\<bar>sum_list (map f xs) - sum_list (map f (filter P xs)) :: int\<bar> \<le> sum_list (map (\<lambda>x. \<bar>f x\<bar>) xs)"
  by (induction xs) auto

text \<open>
  Claim C5.  The summary of a reconciliation counts the paid rows and the pending rows,
  which together are all the returned rows; \<open>percentual\<close> is \<open>0.0\<close> for an empty row list and
  the rounded percentage of paid rows otherwise; \<open>valor_previsto\<close> is the sum of \<open>valor\<close> over
  the returned rows, \<open>valor_pago\<close> the sum over the paid ones and \<open>valor_pendente\<close> their
  difference.  When every \<open>valor\<close> is a finite amount with two decimal places and the
  amounts stay within the 28 digits of the context, the three totals are exact: in cents
  they are the integer sums, and \<open>valor_pendente\<close> is \<open>valor_previsto\<close> minus \<open>valor_pago\<close>.
\<close>

theorem reconciliation_summary:
  assumes c: "db_constraints db"
    and run: "pagamentos_do_mes_referencia M db = Inr (db', registros, res)"
  shows "pagos res = int (length (filter pg_pago registros)) \<and>
         pendentes res = int (length (filter (\<lambda>p. \<not> pg_pago p) registros)) \<and>
         pagos res + pendentes res = int (length registros) \<and>
         percentual res = (if registros = [] then Zero_float
                           else Round_pct (pagos res) (int (length registros))) \<and>
         py_sum (map pg_valor registros) = Inr (valor_previsto res) \<and>
         py_sum (map pg_valor (filter pg_pago registros)) = Inr (valor_pago res) \<and>
         py_sub (valor_previsto res) (valor_pago res) = Inr (valor_pendente res) \<and>
         ((\<forall>p \<in> set registros. is_money (pg_valor p)) \<and>
          sum_list (map (\<lambda>p. \<bar>valor_cents (pg_valor p)\<bar>) registros) < 10 ^ 28 \<longrightarrow>
            cents (valor_previsto res) = Some (sum_list (map (\<lambda>p. valor_cents (pg_valor p)) registros)) \<and>
            cents (valor_pago res) =
              Some (sum_list (map (\<lambda>p. valor_cents (pg_valor p)) (filter pg_pago registros))) \<and>
            cents (valor_pendente res) =
              Some (sum_list (map (\<lambda>p. valor_cents (pg_valor p)) registros) -
                    sum_list (map (\<lambda>p. valor_cents (pg_valor p)) (filter pg_pago registros))))"
proof -
  let ?f = "\<lambda>p. valor_cents (pg_valor p)"
  let ?paid = "filter pg_pago registros"
  have r: "resumir registros = Inr res" using run_post(3) [OF c run] .
  note f = resumir_fields [OF r]
  have q: "\<forall>p \<in> set registros. quantize (pg_valor p) = Inr (pg_valor p)"
    using registros_quantized [OF c run] by blast
  then have q': "\<forall>p \<in> set ?paid. quantize (pg_valor p) = Inr (pg_valor p)" by simp
  have prev: "py_sum (map pg_valor registros) = Inr (valor_previsto res)"
    using f(4) sum_valores_py_sum [OF q] by (simp add: py_sum_def)
  have pago: "py_sum (map pg_valor ?paid) = Inr (valor_pago res)"
    using f(5) sum_valores_py_sum [OF q'] by (simp add: py_sum_def)
  have pend: "pendentes res = int (length (filter (\<lambda>p. \<not> pg_pago p) registros))"
    using f(1) f(2) by (simp add: length_filter_not)
  have tot: "pagos res + pendentes res = int (length registros)" using f(2) by simp
  have exact: "(\<forall>p \<in> set registros. is_money (pg_valor p)) \<and>
          sum_list (map (\<lambda>p. \<bar>?f p\<bar>) registros) < 10 ^ 28 \<longrightarrow>
            cents (valor_previsto res) = Some (sum_list (map ?f registros)) \<and>
            cents (valor_pago res) = Some (sum_list (map ?f ?paid)) \<and>
            cents (valor_pendente res) = Some (sum_list (map ?f registros) - sum_list (map ?f ?paid))"
  proof
    assume h: "(\<forall>p \<in> set registros. is_money (pg_valor p)) \<and>
          sum_list (map (\<lambda>p. \<bar>?f p\<bar>) registros) < 10 ^ 28"
    let ?B = "sum_list (map (\<lambda>p. \<bar>?f p\<bar>) registros)"
    have m0: "money_acc (PInt 0) 0" by (simp add: money_acc_def)
    have mall: "\<forall>v \<in> set (map pg_valor registros). is_money v" using h by simp
    have ball: "\<bar>0::int\<bar> + sum_list (map (\<lambda>v. \<bar>valor_cents v\<bar>) (map pg_valor registros)) < 10 ^ 28"
      using h by (simp add: comp_def)
    from py_sum_from_money [OF m0 mall ball]
    obtain x where x: "py_sum_from (PInt 0) (map pg_valor registros) = Inr x"
      and mx: "money_acc x (sum_list (map ?f registros))" by (auto simp: comp_def)
    have xe: "x = valor_previsto res" using x prev by (simp add: py_sum_def)
    have mpaid: "\<forall>v \<in> set (map pg_valor ?paid). is_money v" using h by simp
    have le: "sum_list (map (\<lambda>p. \<bar>?f p\<bar>) ?paid) \<le> ?B" by (rule sum_list_abs_filter_le)
    have bpaid: "\<bar>0::int\<bar> + sum_list (map (\<lambda>v. \<bar>valor_cents v\<bar>) (map pg_valor ?paid)) < 10 ^ 28"
      using h le by (simp add: comp_def)
    from py_sum_from_money [OF m0 mpaid bpaid]
    obtain y where y: "py_sum_from (PInt 0) (map pg_valor ?paid) = Inr y"
      and my: "money_acc y (sum_list (map ?f ?paid))" by (auto simp: comp_def)
    have ye: "y = valor_pago res" using y pago by (simp add: py_sum_def)
    have b1: "\<bar>sum_list (map ?f registros) - sum_list (map ?f ?paid)\<bar> < 10 ^ 28"
      using abs_sum_diff_filter_le [of ?f registros pg_pago] h by linarith
    have b2: "\<bar>sum_list (map ?f registros)\<bar> < 10 ^ 28"
      using abs_sum_list_le [of ?f registros] h by linarith
    have b3: "\<bar>sum_list (map ?f ?paid)\<bar> < 10 ^ 28"
      using abs_sum_list_le [of ?f ?paid] le h by linarith
    from py_sub_money [OF mx my b1 b2 b3]
    obtain z where z: "py_sub x y = Inr z"
      and mz: "money_acc z (sum_list (map ?f registros) - sum_list (map ?f ?paid))" by blast
    have ze: "z = valor_pendente res" using z f(6) xe ye by simp
    show "cents (valor_previsto res) = Some (sum_list (map ?f registros)) \<and>
            cents (valor_pago res) = Some (sum_list (map ?f ?paid)) \<and>
            cents (valor_pendente res) = Some (sum_list (map ?f registros) - sum_list (map ?f ?paid))"
      using money_acc_cents [OF mx] money_acc_cents [OF my] money_acc_cents [OF mz] xe ye ze
      by simp
  qed
  show ?thesis using f(1) pend tot f(3) prev pago f(6) exact by (intro conjI) assumption+
qed

theorem reconciliation_summary_witness:
  "db_constraints example_db \<and>
   pagamentos_do_mes_referencia (mk_date 2024 3 1) example_db =
     Inr (example_db_after, example_registros, example_resumo) \<and>
   list_all (\<lambda>p. is_money (pg_valor p)) example_registros \<and>
   sum_list (map (\<lambda>p. \<bar>valor_cents (pg_valor p)\<bar>) example_registros) < 10 ^ 28 \<and>
   pagos example_resumo + pendentes example_resumo = int (length example_registros) \<and>
   cents (valor_previsto example_resumo) = Some 24950 \<and>
   cents (valor_pago example_resumo) = Some 15000 \<and>
   cents (valor_pendente example_resumo) = Some (24950 - 15000)"
  using reconciliation_summary [OF example_constraints example_run]
    example_constraints example_run
  by (simp add: example_registros_def mk_pagamento_def signed_def)

lemma example_members:
  "example_zeca \<in> set (db_alunos example_db)"
  "example_ana \<in> set (db_alunos example_db)"
  "example_bia \<in> set (db_alunos example_db)"
  by (simp_all add: example_db_def example_zeca_def example_ana_def example_bia_def)

text \<open>
  The claim as stated fails: in the example the inactive student 2, who is not on
  scholarship, gets a row of the month (the first of the two returned rows).
\<close>

theorem reconciliation_active_only_counterexample:
  "pagamentos_do_mes_referencia (mk_date 2024 3 1) example_db =
     Inr (example_db_after, example_registros, example_resumo) \<and>
   map al_id (db_alunos example_db) = [1, 2, 3] \<and>
   map al_status (db_alunos example_db) = [''ativo'', ''inativo'', ''ativo''] \<and>
   map al_projeto_social (db_alunos example_db) = [False, False, True] \<and>
   map pg_aluno_id example_registros = [2, 1]"
  using example_run
  by (simp add: example_db_def example_registros_def mk_aluno_def mk_pagamento_def)

theorem reconciliation_one_row_per_paying_student_witness:
  "db_constraints example_db \<and>
   pagamentos_do_mes_referencia (mk_date 2024 3 1) example_db =
     Inr (example_db_after, example_registros, example_resumo) \<and>
   example_ana \<in> set (db_alunos example_db) \<and>
   al_status example_ana = ''inativo'' \<and> \<not> al_projeto_social example_ana \<and>
   length (filter (\<lambda>p. pg_aluno_id p = al_id example_ana) example_registros) = 1 \<and>
   length (filter (\<lambda>p. pg_key p = (al_id example_ana, mk_date 2024 3 1))
             (db_pagamentos example_db_after)) = 1"
  using reconciliation_one_row_per_paying_student
          [OF example_constraints example_run example_members(2)]
    example_constraints example_run example_members(2)
  by (simp add: example_ana_def mk_aluno_def)

theorem reconciliation_scholarship_has_no_row_witness:
  "db_constraints example_db \<and>
   pagamentos_do_mes_referencia (mk_date 2024 3 1) example_db =
     Inr (example_db_after, example_registros, example_resumo) \<and>
   example_bia \<in> set (db_alunos example_db) \<and> al_projeto_social example_bia \<and>
   find_pagamento (al_id example_bia) (mk_date 2024 3 1) (db_pagamentos example_db) =
     Some (mk_pagamento 1 3 (mk_date 2024 3 1) False None (Fin False 10000 (- 2))) \<and>
   find_pagamento (al_id example_bia) (mk_date 2024 3 1) (db_pagamentos example_db_after) = None \<and>
   al_id example_bia \<notin> set (map pg_aluno_id example_registros)"
proof -
  have s: "al_projeto_social example_bia" by (simp add: example_bia_def mk_aluno_def)
  have old: "find_pagamento (al_id example_bia) (mk_date 2024 3 1) (db_pagamentos example_db) =
     Some (mk_pagamento 1 3 (mk_date 2024 3 1) False None (Fin False 10000 (- 2)))"
    by (simp add: example_bia_def example_db_def eval_defs)
  show ?thesis
    using reconciliation_scholarship_has_no_row
            [OF example_constraints example_run example_members(3) s]
      example_constraints example_run example_members(3) s old
    by auto
qed

theorem reconciliation_overwrites_only_valor_witness:
  "db_constraints example_db \<and>
   pagamentos_do_mes_referencia (mk_date 2024 3 1) example_db =
     Inr (example_db_after, example_registros, example_resumo) \<and>
   example_zeca \<in> set (db_alunos example_db) \<and> \<not> al_projeto_social example_zeca \<and>
   find_pagamento (al_id example_zeca) (mk_date 2024 3 1) (db_pagamentos example_db) =
     Some (mk_pagamento 2 1 (mk_date 2024 3 1) True (Some (mk_date 2024 3 5)) (Fin False 10000 (- 2))) \<and>
   (\<exists>p. find_pagamento (al_id example_zeca) (mk_date 2024 3 1) (db_pagamentos example_db_after) = Some p \<and>
        p \<in> set example_registros \<and>
        p = mk_pagamento 2 1 (mk_date 2024 3 1) True (Some (mk_date 2024 3 5)) (Fin False 15000 (- 2)))"
proof -
  have s: "\<not> al_projeto_social example_zeca" by (simp add: example_zeca_def mk_aluno_def)
  have old: "find_pagamento (al_id example_zeca) (mk_date 2024 3 1) (db_pagamentos example_db) =
     Some (mk_pagamento 2 1 (mk_date 2024 3 1) True (Some (mk_date 2024 3 5)) (Fin False 10000 (- 2)))"
    by (simp add: example_zeca_def example_db_def eval_defs)
  have fee: "parse_decimal (PyDecimal (al_valor_mensalidade example_zeca)) ZERO_00 =
     Inr (Fin False 15000 (- 2))"
    by (simp add: example_zeca_def eval_defs)
  from reconciliation_overwrites_only_valor
         [OF example_constraints example_run example_members(1) s]
  obtain v p where v: "parse_decimal (PyDecimal (al_valor_mensalidade example_zeca)) ZERO_00 = Inr v"
    and f: "find_pagamento (al_id example_zeca) (mk_date 2024 3 1) (db_pagamentos example_db_after) = Some p"
    and m: "p \<in> set example_registros"
    and o: "\<forall>q. find_pagamento (al_id example_zeca) (mk_date 2024 3 1) (db_pagamentos example_db) = Some q \<longrightarrow>
                p = q\<lparr>pg_valor := v\<rparr> \<and> pg_pago p = pg_pago q \<and>
                pg_data_pagamento p = pg_data_pagamento q"
    by blast
  have "v = Fin False 15000 (- 2)" using v fee by simp
  then have "p = mk_pagamento 2 1 (mk_date 2024 3 1) True (Some (mk_date 2024 3 5)) (Fin False 15000 (- 2))"
    using o old by (simp add: mk_pagamento_def)
  then show ?thesis
    using f m example_constraints example_run example_members(1) s old by blast
qed

lemma quantize_result:
  assumes "quantize d = Inr q"
  shows "is_money q \<or> is_qnan q"
  using assms by (cases d) (auto simp: quantize_def Let_def split: if_splits)

lemma quantize_error:
  "quantize d = Inl e \<Longrightarrow> e = InvalidOperation"
  by (cases d) (auto simp: quantize_def Let_def split: if_splits)

lemma Decimal_of_str_error:
  "Decimal_of_str s = Inl e \<Longrightarrow> e = InvalidOperation"
  by (auto simp: Decimal_of_str_def Let_def split: option.splits)

lemma parse_decimal_None: "parse_decimal PyNone dflt = Inr dflt"
  by (simp add: parse_decimal_def)

lemma parse_decimal_str_total:
  "\<exists>d. parse_decimal (PyStr s) dflt = Inr d \<and> (d = dflt \<or> is_money d \<or> is_qnan d)"
proof -
  let ?c = "replace_chr CHR '','' ''.'' (replace_chr CHR ''.'' [] (strip s))"
  show ?thesis
  proof (cases "Decimal_of_str ?c")
    case (Inl e)
    then have "e = InvalidOperation" by (rule Decimal_of_str_error)
    then show ?thesis using Inl by (simp add: parse_decimal_def except_default_def Let_def)
  next
    case (Inr d)
    show ?thesis
    proof (cases "quantize d")
      case (Inl e)
      then have "e = InvalidOperation" by (rule quantize_error)
      then show ?thesis using Inl Inr by (simp add: parse_decimal_def except_default_def Let_def)
    next
      case q: (Inr q)
      then have "is_money q \<or> is_qnan q" by (rule quantize_result)
      then show ?thesis using q Inr by (simp add: parse_decimal_def except_default_def Let_def)
    qed
  qed
qed

lemma parse_decimal_number:
  "parse_decimal (PyInt n) dflt = quantize (Decimal_of_int n)"
  "parse_decimal (PyFloat f) dflt = quantize (Decimal_of_float f)"
  by (simp_all add: parse_decimal_def)

text \<open>
  Claim C9.  The claim fails on the code: the form value \<open>NaN\<close> is parsed by \<open>Decimal\<close>
  and passes \<open>quantize\<close> unchanged, so \<open>parse_decimal\<close> returns a NaN, which is neither a
  value with two decimal places nor the default; and on a number the call to \<open>quantize\<close>
  is outside the \<open>try\<close>, so \<open>parse_decimal(10 ** 26)\<close> and \<open>parse_decimal(float("inf"))\<close>
  raise \<open>InvalidOperation\<close>.
\<close>

theorem parse_decimal_nan_and_unguarded_numbers:
  "parse_decimal (PyStr ''NaN'') ZERO_00 = Inr (NaN False 0) \<and>
   parse_decimal (PyInt (10 ^ 26)) ZERO_00 = Inl InvalidOperation \<and>
   parse_decimal (PyFloat (FloatInf False)) ZERO_00 = Inl InvalidOperation"
proof -
  have a: "parse_decimal (PyStr ''NaN'') ZERO_00 = Inr (NaN False 0)"
    by (simp add: parse_decimal_def strip_def py_isspace_def replace_chr_def Decimal_of_str_def
        parse_number_def parse_special_def parse_exp_def is_digit_def to_lower_def
        nat_of_digits_def quantize_def except_default_def Let_def)
  have b: "parse_decimal (PyInt (10 ^ 26)) ZERO_00 = Inl InvalidOperation"
    by (simp add: parse_decimal_def Decimal_of_int_def quantize_def ndigits.simps Emax_def
        prec_def Let_def)
  have c: "parse_decimal (PyFloat (FloatInf False)) ZERO_00 = Inl InvalidOperation"
    by (simp add: parse_decimal_def Decimal_of_float_def quantize_def)
  show ?thesis using a b c by simp
qed

lemma has_permission_users: "has_permission u ''users'' \<longleftrightarrow> us_role u = ''admin''"
  by (simp add: has_permission_def ROLE_PERMISSIONS_def)

lemma get_user_SomeD: "get_user uid db = Some u \<Longrightarrow> u \<in> set (db_users db) \<and> us_id u = uid"
  unfolding get_user_def by (induction "db_users db" arbitrary: db) (auto simp: find_Some_iff)

lemma get_user_member:
  "distinct (map us_id (db_users db)) \<Longrightarrow> u \<in> set (db_users db) \<Longrightarrow>
     get_user (us_id u) db = Some u"
proof -
  assume d: "distinct (map us_id (db_users db))" and m: "u \<in> set (db_users db)"
  have "\<And>us. distinct (map us_id us) \<Longrightarrow> u \<in> set us \<Longrightarrow> find (\<lambda>x. us_id x = us_id u) us = Some u"
  proof -
    fix us show "distinct (map us_id us) \<Longrightarrow> u \<in> set us \<Longrightarrow> find (\<lambda>x. us_id x = us_id u) us = Some u"
      by (induction us) (auto simp: image_iff)
  qed
  then show ?thesis using d m by (simp add: get_user_def)
qed

lemma sole_admin:
  assumes "admin_count db = 1" and "u \<in> set (db_users db)" and "us_role u = ''admin''"
    and "v \<in> set (db_users db)" and "us_role v = ''admin''"
  shows "v = u"
proof -
  let ?adm = "filter (\<lambda>u. us_role u = ''admin'') (db_users db)"
  have l: "length ?adm = 1" using assms(1) by (simp add: admin_count_def)
  then obtain x where x: "?adm = [x]" by (cases ?adm) auto
  have "u \<in> set ?adm" "v \<in> set ?adm" using assms by simp_all
  then show ?thesis unfolding x by simp
qed

lemma manage_users_anonymous:
  "(case session of None \<Rightarrow> None | Some uid \<Rightarrow> get_user uid db) = None \<Longrightarrow>
     manage_users session action db = (db, Redirect_error Faca_login)"
  by (simp add: manage_users_def)

lemma manage_users_no_permission:
  "(case session of None \<Rightarrow> None | Some uid \<Rightarrow> get_user uid db) = Some cur \<Longrightarrow>
     us_role cur \<noteq> ''admin'' \<Longrightarrow>
     manage_users session action db = (db, Redirect_error Sem_permissao)"
  by (simp add: manage_users_def has_permission_users)

lemma manage_users_admin:
  "(case session of None \<Rightarrow> None | Some uid \<Rightarrow> get_user uid db) = Some cur \<Longrightarrow>
     us_role cur = ''admin'' \<Longrightarrow>
     manage_users session action db =
       (case action of
          Update_role user_id role \<Rightarrow> update_role cur user_id role db
        | Delete user_id \<Rightarrow> delete_user cur user_id db)"
  by (simp add: manage_users_def has_permission_users)

lemma session_user_member:
  "(case session of None \<Rightarrow> None | Some uid \<Rightarrow> get_user uid db) = Some cur \<Longrightarrow>
     cur \<in> set (db_users db) \<and> session = Some (us_id cur)"
  by (cases session) (auto dest: get_user_SomeD)

lemma delete_user_rejected:
  assumes "get_user uid db = Some u"
    and "map to_lower (us_username u) = ''admin'' \<or> us_id u = us_id cur \<or>
         (us_role u = ''admin'' \<and> admin_count db = 1)"
  shows "\<exists>r. delete_user cur uid db = (db, r) \<and> is_error r"
  using assms by (auto simp: delete_user_def)

lemma update_role_rejected:
  assumes "get_user uid db = Some u"
    and "role \<notin> set ROLE_CHOICES \<or> (us_id u = us_id cur \<and> role \<noteq> ''admin'' \<and> admin_count db = 1)"
  shows "\<exists>r. update_role cur uid role db = (db, r) \<and> is_error r"
  using assms by (auto simp: update_role_def)

lemma gate_rejects_or_admin:
  obtains (rejected) r where "\<forall>action. manage_users session action db = (db, r)" "is_error r"
  | (admin) cur where "(case session of None \<Rightarrow> None | Some uid \<Rightarrow> get_user uid db) = Some cur"
      "us_role cur = ''admin''"
proof (cases "case session of None \<Rightarrow> None | Some uid \<Rightarrow> get_user uid db")
  case None
  then have "\<forall>action. manage_users session action db = (db, Redirect_error Faca_login)"
    by (simp add: manage_users_anonymous)
  then show ?thesis using rejected by simp
next
  case (Some cur)
  show ?thesis
  proof (cases "us_role cur = ''admin''")
    case True
    then show ?thesis using Some admin by blast
  next
    case False
    then have "\<forall>action. manage_users session action db = (db, Redirect_error Sem_permissao)"
      using Some by (simp add: manage_users_no_permission)
    then show ?thesis using rejected by simp
  qed
qed

lemma delete_target_rejected:
  assumes c: "db_constraints db" and u: "u \<in> set (db_users db)"
    and why: "map to_lower (us_username u) = ''admin'' \<or> session = Some (us_id u) \<or>
              (us_role u = ''admin'' \<and> admin_count db = 1)"
  shows "\<exists>r. manage_users session (Delete (us_id u)) db = (db, r) \<and> is_error r"
proof (cases rule: gate_rejects_or_admin [of session db])
  case (rejected r)
  then show ?thesis by blast
next
  case (admin cur)
  have d: "distinct (map us_id (db_users db))" using c by (simp add: db_constraints_def)
  have g: "get_user (us_id u) db = Some u" using d u by (rule get_user_member)
  have s: "session = Some (us_id cur)" using admin(1) by (simp add: session_user_member)
  have "map to_lower (us_username u) = ''admin'' \<or> us_id u = us_id cur \<or>
         (us_role u = ''admin'' \<and> admin_count db = 1)"
    using why s by auto
  with g have "\<exists>r. delete_user cur (us_id u) db = (db, r) \<and> is_error r"
    by (rule delete_user_rejected)
  then show ?thesis using admin by (simp add: manage_users_admin)
qed

lemma demote_sole_admin_rejected:
  assumes c: "db_constraints db" and u: "u \<in> set (db_users db)"
    and a: "us_role u = ''admin''" and one: "admin_count db = 1" and role: "role \<noteq> ''admin''"
  shows "\<exists>r. manage_users session (Update_role (us_id u) role) db = (db, r) \<and> is_error r"
proof (cases rule: gate_rejects_or_admin [of session db])
  case (rejected r)
  then show ?thesis by blast
next
  case (admin cur)
  have d: "distinct (map us_id (db_users db))" using c by (simp add: db_constraints_def)
  have g: "get_user (us_id u) db = Some u" using d u by (rule get_user_member)
  have m: "cur \<in> set (db_users db)" using admin(1) by (simp add: session_user_member)
  have "cur = u" using one u a m admin(2) by (rule sole_admin)
  then have "role \<notin> set ROLE_CHOICES \<or> (us_id u = us_id cur \<and> role \<noteq> ''admin'' \<and> admin_count db = 1)"
    using role one by simp
  with g have "\<exists>r. update_role cur (us_id u) role db = (db, r) \<and> is_error r"
    by (rule update_role_rejected)
  then show ?thesis using admin by (simp add: manage_users_admin)
qed

text \<open>
  Claim C8.  Last-admin protection.  When exactly one account has the role \<open>admin\<close>, a
  request to delete that account, or to change its role to another role, is answered with
  an error message and leaves the database unchanged, whoever sends it; the authenticated
  account cannot delete itself; and an account named \<open>admin\<close> cannot be deleted.
\<close>

theorem last_admin_protection:
  assumes c: "db_constraints db" and u: "u \<in> set (db_users db)"
  shows "(admin_count db = 1 \<and> us_role u = ''admin'' \<longrightarrow>
            (\<exists>r. manage_users session (Delete (us_id u)) db = (db, r) \<and> is_error r) \<and>
            (role \<noteq> ''admin'' \<longrightarrow>
               (\<exists>r. manage_users session (Update_role (us_id u) role) db = (db, r) \<and> is_error r))) \<and>
         (session = Some (us_id u) \<longrightarrow>
            (\<exists>r. manage_users session (Delete (us_id u)) db = (db, r) \<and> is_error r)) \<and>
         (map to_lower (us_username u) = ''admin'' \<longrightarrow>
            (\<exists>r. manage_users session (Delete (us_id u)) db = (db, r) \<and> is_error r))"
proof (intro conjI impI)
  assume h: "admin_count db = 1 \<and> us_role u = ''admin''"
  then have "map to_lower (us_username u) = ''admin'' \<or> session = Some (us_id u) \<or>
              (us_role u = ''admin'' \<and> admin_count db = 1)" by simp
  with c u show "\<exists>r. manage_users session (Delete (us_id u)) db = (db, r) \<and> is_error r"
    by (rule delete_target_rejected)
next
  assume h: "admin_count db = 1 \<and> us_role u = ''admin''" and r: "role \<noteq> ''admin''"
  from h have a: "us_role u = ''admin''" and n: "admin_count db = 1" by simp_all
  from c u a n r
  show "\<exists>r. manage_users session (Update_role (us_id u) role) db = (db, r) \<and> is_error r"
    by (rule demote_sole_admin_rejected)
next
  assume "session = Some (us_id u)"
  then have "map to_lower (us_username u) = ''admin'' \<or> session = Some (us_id u) \<or>
              (us_role u = ''admin'' \<and> admin_count db = 1)" by simp
  with c u show "\<exists>r. manage_users session (Delete (us_id u)) db = (db, r) \<and> is_error r"
    by (rule delete_target_rejected)
next
  assume "map to_lower (us_username u) = ''admin''"
  then have "map to_lower (us_username u) = ''admin'' \<or> session = Some (us_id u) \<or>
              (us_role u = ''admin'' \<and> admin_count db = 1)" by simp
  with c u show "\<exists>r. manage_users session (Delete (us_id u)) db = (db, r) \<and> is_error r"
    by (rule delete_target_rejected)
qed

theorem last_admin_protection_witness:
  "db_constraints example_users_db \<and>
   mk_user 1 ''carla'' ''admin'' \<in> set (db_users example_users_db) \<and>
   admin_count example_users_db = 1 \<and> ''gestor'' \<noteq> ''admin'' \<and>
   (\<exists>r. manage_users (Some 1) (Delete 1) example_users_db = (example_users_db, r) \<and> is_error r) \<and>
   (\<exists>r. manage_users (Some 1) (Update_role 1 ''gestor'') example_users_db = (example_users_db, r) \<and>
        is_error r) \<and>
   manage_users (Some 1) (Update_role 1 ''gestor'') example_users_db =
     (example_users_db, Redirect_error Ultimo_administrador)"
proof -
  have c: "db_constraints example_users_db"
    by (simp add: db_constraints_def example_users_db_def mk_user_def)
  have u: "mk_user 1 ''carla'' ''admin'' \<in> set (db_users example_users_db)"
    by (simp add: example_users_db_def)
  have n: "admin_count example_users_db = 1"
    by (simp add: admin_count_def example_users_db_def mk_user_def)
  have r: "us_role (mk_user 1 ''carla'' ''admin'') = ''admin''"
    and i: "us_id (mk_user 1 ''carla'' ''admin'') = 1" by (simp_all add: mk_user_def)
  have e: "manage_users (Some 1) (Update_role 1 ''gestor'') example_users_db =
     (example_users_db, Redirect_error Ultimo_administrador)"
    by (simp add: manage_users_def get_user_def has_permission_def update_role_def
        ROLE_CHOICES_def admin_count_def example_users_db_def mk_user_def)
  show ?thesis
    using last_admin_protection [OF c u, of "Some 1" "''gestor''"] c u n r i e by simp
qed

lemma find_key_SomeD: "find (\<lambda>p. key p = k) ps = Some p \<Longrightarrow> p \<in> set ps \<and> key p = k"
  by (induction ps) (auto split: if_splits)

lemma find_key_None_iff: "find (\<lambda>p. key p = k) ps = None \<longleftrightarrow> (\<forall>p \<in> set ps. key p \<noteq> k)"
  by (induction ps) auto

lemma find_key_unique:
  "distinct (map key ps) \<Longrightarrow> p \<in> set ps \<Longrightarrow> key p = k \<Longrightarrow> find (\<lambda>p. key p = k) ps = Some p"
  by (induction ps) (auto simp: rev_image_eqI)

lemma find_key_iff:
  "distinct (map key ps) \<Longrightarrow> find (\<lambda>p. key p = k) ps = Some p \<longleftrightarrow> p \<in> set ps \<and> key p = k"
  using find_key_SomeD [of key k ps p] find_key_unique [of key ps p k] by blast

lemma find_key_cong_set:
  assumes "distinct (map key ps)" and "distinct (map key ps')"
    and "\<And>p. key p = k \<Longrightarrow> p \<in> set ps' \<longleftrightarrow> p \<in> set ps"
  shows "find (\<lambda>p. key p = k) ps' = find (\<lambda>p. key p = k) ps"
proof (cases "find (\<lambda>p. key p = k) ps")
  case None
  then have "\<forall>p \<in> set ps'. key p \<noteq> k" using assms(3) by (auto simp: find_key_None_iff)
  then have "find (\<lambda>p. key p = k) ps' = None" by (simp add: find_key_None_iff)
  then show ?thesis using None by simp
next
  case (Some q)
  then have "q \<in> set ps \<and> key q = k" using assms(1) by (simp add: find_key_iff)
  then have "q \<in> set ps' \<and> key q = k" using assms(3) by blast
  then have "find (\<lambda>p. key p = k) ps' = Some q" using assms(2) by (simp add: find_key_iff)
  then show ?thesis using Some by simp
qed

lemma length_filter_find_key:
  "distinct (map key ps) \<Longrightarrow>
     length (filter (\<lambda>p. key p = k) ps) = (case find (\<lambda>p. key p = k) ps of None \<Rightarrow> 0 | Some q \<Rightarrow> 1)"
proof (induction ps)
  case Nil
  then show ?case by simp
next
  case (Cons p ps)
  show ?case
  proof (cases "key p = k")
    case True
    have notin: "k \<notin> key ` set ps" using Cons.prems True by simp
    have "\<forall>q \<in> set ps. key q \<noteq> k"
    proof
      fix q assume "q \<in> set ps"
      then have "key q \<in> key ` set ps" by (rule imageI)
      then show "key q \<noteq> k" using notin by metis
    qed
    then have "filter (\<lambda>p. key p = k) ps = []" by (simp add: filter_empty_conv)
    then show ?thesis using True by simp
  next
    case False
    then show ?thesis using Cons by simp
  qed
qed

lemma find_presenca_key: "find_presenca aid d ps = find (\<lambda>p. pr_key p = (d, aid)) ps"
  by (simp add: find_presenca_def pr_key_def conj_commute)

lemma update_presenca_ids: "map pr_id (update_presenca p ps) = map pr_id ps"
  unfolding update_presenca_def by (induction ps) auto

lemma update_presenca_keys:
  assumes "distinct (map pr_id ps)" and "q \<in> set ps" and "pr_id p = pr_id q"
    and "pr_key p = pr_key q"
  shows "map pr_key (update_presenca p ps) = map pr_key ps"
proof -
  have inj: "inj_on pr_id (set ps)" using assms(1) by (simp add: distinct_map)
  have "\<And>r. r \<in> set ps \<Longrightarrow> pr_key (if pr_id r = pr_id p then p else r) = pr_key r"
    using inj assms(2,3,4) by (auto dest: inj_onD)
  then show ?thesis unfolding update_presenca_def by simp
qed

lemma update_presenca_set:
  assumes "distinct (map pr_id ps)" and "q \<in> set ps" and "pr_id p = pr_id q"
  shows "set (update_presenca p ps) = insert p (set ps - {q})"
proof -
  have inj: "inj_on pr_id (set ps)" using assms(1) by (simp add: distinct_map)
  show ?thesis unfolding update_presenca_def using inj assms(2,3)
    by (auto dest: inj_onD simp: image_iff)
qed

lemma update_presenca_same:
  assumes "distinct (map pr_id ps)" and "p \<in> set ps"
  shows "update_presenca p ps = ps"
proof -
  have inj: "inj_on pr_id (set ps)" using assms(1) by (simp add: distinct_map)
  have "\<And>q. q \<in> set ps \<Longrightarrow> (if pr_id q = pr_id p then p else q) = q"
    using inj assms(2) by (auto dest: inj_onD)
  then show ?thesis unfolding update_presenca_def by (simp add: map_idI)
qed

lemma registrar_presenca_Some:
  "find_presenca (al_id a) d ps = Some q \<Longrightarrow>
     registrar_presenca tid d ids ps a =
       update_presenca (q\<lparr>pr_presente := al_id a \<in> set ids, pr_turma_id := tid\<rparr>) ps"
  by (simp add: registrar_presenca_def Let_def)

lemma registrar_presenca_None:
  "find_presenca (al_id a) d ps = None \<Longrightarrow>
     registrar_presenca tid d ids ps a =
       update_presenca ((new_presenca (al_id a) tid d ps)\<lparr>pr_presente := al_id a \<in> set ids, pr_turma_id := tid\<rparr>)
         (ps @ [new_presenca (al_id a) tid d ps])"
  by (simp add: registrar_presenca_def Let_def)

lemma wf_presencas_append_new:
  assumes wf: "wf_presencas ps" and none: "find_presenca aid d ps = None"
  shows "wf_presencas (ps @ [new_presenca aid tid d ps])"
proof -
  let ?n = "new_presenca aid tid d ps"
  have "pr_id ?n \<notin> set (map pr_id ps)"
    using next_id_fresh [of "map pr_id ps"] by (simp add: new_presenca_def)
  moreover have "pr_key ?n = (d, aid)" by (simp add: new_presenca_def pr_key_def)
  then have "pr_key ?n \<notin> set (map pr_key ps)"
    using none by (auto simp: find_presenca_key find_key_None_iff)
  ultimately show ?thesis using wf by (simp add: wf_presencas_def)
qed

lemma new_presenca_notin: "new_presenca aid tid d ps \<notin> set ps"
proof
  assume "new_presenca aid tid d ps \<in> set ps"
  then have "pr_id (new_presenca aid tid d ps) \<in> pr_id ` set ps" by (rule imageI)
  then show False using next_id_fresh [of "map pr_id ps"] by (simp add: new_presenca_def)
qed

lemma update_flags_step:
  assumes wf: "wf_presencas ps" and q: "q \<in> set ps" and kq: "pr_key q = (d, aid)"
  shows "wf_presencas (update_presenca (q\<lparr>pr_presente := b, pr_turma_id := tid\<rparr>) ps)"
    and "find_presenca aid d (update_presenca (q\<lparr>pr_presente := b, pr_turma_id := tid\<rparr>) ps) =
           Some (q\<lparr>pr_presente := b, pr_turma_id := tid\<rparr>)"
    and "set (update_presenca (q\<lparr>pr_presente := b, pr_turma_id := tid\<rparr>) ps) =
           insert (q\<lparr>pr_presente := b, pr_turma_id := tid\<rparr>) (set ps - {q})"
    and "map pr_id (update_presenca (q\<lparr>pr_presente := b, pr_turma_id := tid\<rparr>) ps) = map pr_id ps"
proof -
  let ?p = "q\<lparr>pr_presente := b, pr_turma_id := tid\<rparr>"
  let ?ps' = "update_presenca ?p ps"
  have dk: "distinct (map pr_key ps)" and di: "distinct (map pr_id ps)"
    using wf by (simp_all add: wf_presencas_def)
  have idp: "pr_id ?p = pr_id q" by simp
  have kp: "pr_key ?p = pr_key q" by (simp add: pr_key_def)
  show ids: "map pr_id ?ps' = map pr_id ps" by (rule update_presenca_ids)
  have keys: "map pr_key ?ps' = map pr_key ps"
    using di q idp kp by (rule update_presenca_keys)
  show wf': "wf_presencas ?ps'" using wf ids keys by (simp add: wf_presencas_def)
  show set': "set ?ps' = insert ?p (set ps - {q})"
    using di q idp by (rule update_presenca_set)
  have "?p \<in> set ?ps'" using set' by simp
  moreover have "pr_key ?p = (d, aid)" using kp kq by simp
  moreover have "distinct (map pr_key ?ps')" using keys dk by simp
  ultimately show "find_presenca aid d ?ps' = Some ?p"
    by (simp add: find_presenca_key find_key_iff)
qed

lemma find_presenca_others:
  assumes "distinct (map pr_key ps)" and "distinct (map pr_key ps')"
    and "\<And>p. pr_key p \<noteq> (d0, k0) \<Longrightarrow> p \<in> set ps' \<longleftrightarrow> p \<in> set ps"
    and "(k, r) \<noteq> (k0, d0)"
  shows "find_presenca k r ps' = find_presenca k r ps"
  unfolding find_presenca_key
proof (rule find_key_cong_set [OF assms(1) assms(2)])
  fix p assume "pr_key p = (r, k)"
  then have "pr_key p \<noteq> (d0, k0)" using assms(4) by auto
  then show "p \<in> set ps' \<longleftrightarrow> p \<in> set ps" by (rule assms(3))
qed

lemma step_presenca:
  assumes wf: "wf_presencas ps"
  shows "wf_presencas (registrar_presenca tid d ids ps a)"
    and "find_presenca (al_id a) d (registrar_presenca tid d ids ps a) =
           Some ((presenca_row (al_id a) tid d ps)\<lparr>pr_presente := al_id a \<in> set ids, pr_turma_id := tid\<rparr>)"
    and "\<forall>k r. (k, r) \<noteq> (al_id a, d) \<longrightarrow>
           find_presenca k r (registrar_presenca tid d ids ps a) = find_presenca k r ps"
    and "find_presenca (al_id a) d ps \<noteq> None \<longrightarrow>
           map pr_id (registrar_presenca tid d ids ps a) = map pr_id ps"
proof -
  let ?b = "al_id a \<in> set ids"
  let ?ps' = "registrar_presenca tid d ids ps a"
  have dk: "distinct (map pr_key ps)" using wf by (simp add: wf_presencas_def)
  have all: "wf_presencas ?ps' \<and>
      find_presenca (al_id a) d ?ps' = Some ((presenca_row (al_id a) tid d ps)\<lparr>pr_presente := ?b, pr_turma_id := tid\<rparr>) \<and>
      (\<forall>k r. (k, r) \<noteq> (al_id a, d) \<longrightarrow> find_presenca k r ?ps' = find_presenca k r ps) \<and>
      (find_presenca (al_id a) d ps \<noteq> None \<longrightarrow> map pr_id ?ps' = map pr_id ps)"
  proof (cases "find_presenca (al_id a) d ps")
    case (Some q)
    let ?p = "q\<lparr>pr_presente := ?b, pr_turma_id := tid\<rparr>"
    have q: "q \<in> set ps" "pr_key q = (d, al_id a)"
      using Some dk by (simp_all add: find_presenca_key find_key_iff)
    have row: "presenca_row (al_id a) tid d ps = q" using Some by (simp add: presenca_row_def)
    have run: "?ps' = update_presenca ?p ps" using Some by (rule registrar_presenca_Some)
    note st = update_flags_step [OF wf q, where b = "?b" and tid = tid]
    have dk': "distinct (map pr_key (update_presenca ?p ps))" using st(1) by (simp add: wf_presencas_def)
    have kp: "pr_key ?p = (d, al_id a)" using q(2) by (simp add: pr_key_def)
    have others: "\<forall>k r. (k, r) \<noteq> (al_id a, d) \<longrightarrow>
        find_presenca k r (update_presenca ?p ps) = find_presenca k r ps"
    proof (intro allI impI)
      fix k r assume ne: "(k, r) \<noteq> (al_id a, d)"
      have "\<And>x. pr_key x \<noteq> (d, al_id a) \<Longrightarrow> x \<in> set (update_presenca ?p ps) \<longleftrightarrow> x \<in> set ps"
        unfolding st(3) using q(2) kp by auto
      then show "find_presenca k r (update_presenca ?p ps) = find_presenca k r ps"
        using ne by (rule find_presenca_others [OF dk dk'])
    qed
    show ?thesis unfolding run row using st(1) st(2) st(4) others by simp
  next
    case None
    let ?n = "new_presenca (al_id a) tid d ps"
    let ?ps1 = "ps @ [?n]"
    let ?p = "?n\<lparr>pr_presente := ?b, pr_turma_id := tid\<rparr>"
    have row: "presenca_row (al_id a) tid d ps = ?n" using None by (simp add: presenca_row_def)
    have run: "?ps' = update_presenca ?p ?ps1" using None by (rule registrar_presenca_None)
    have wf1: "wf_presencas ?ps1" using wf None by (rule wf_presencas_append_new)
    have n: "?n \<in> set ?ps1" by simp
    have kn: "pr_key ?n = (d, al_id a)" by (simp add: new_presenca_def pr_key_def)
    note st = update_flags_step [OF wf1 n kn, where b = "?b" and tid = tid]
    have dk': "distinct (map pr_key (update_presenca ?p ?ps1))" using st(1) by (simp add: wf_presencas_def)
    have kp: "pr_key ?p = (d, al_id a)" using kn by (simp add: pr_key_def)
    have nn: "?n \<notin> set ps" by (rule new_presenca_notin)
    have set': "set (update_presenca ?p ?ps1) = insert ?p (set ps)" using st(3) nn by auto
    have others: "\<forall>k r. (k, r) \<noteq> (al_id a, d) \<longrightarrow>
        find_presenca k r (update_presenca ?p ?ps1) = find_presenca k r ps"
    proof (intro allI impI)
      fix k r assume ne: "(k, r) \<noteq> (al_id a, d)"
      have "\<And>x. pr_key x \<noteq> (d, al_id a) \<Longrightarrow> x \<in> set (update_presenca ?p ?ps1) \<longleftrightarrow> x \<in> set ps"
        unfolding set' using kp by auto
      then show "find_presenca k r (update_presenca ?p ?ps1) = find_presenca k r ps"
        using ne by (rule find_presenca_others [OF dk dk'])
    qed
    show ?thesis unfolding run row using st(1) st(2) others None by simp
  qed
  show "wf_presencas ?ps'"
    and "find_presenca (al_id a) d ?ps' =
           Some ((presenca_row (al_id a) tid d ps)\<lparr>pr_presente := ?b, pr_turma_id := tid\<rparr>)"
    and "\<forall>k r. (k, r) \<noteq> (al_id a, d) \<longrightarrow> find_presenca k r ?ps' = find_presenca k r ps"
    and "find_presenca (al_id a) d ps \<noteq> None \<longrightarrow> map pr_id ?ps' = map pr_id ps"
    using all by blast+
qed

lemma marked_step:
  assumes wf: "wf_presencas ps"
  shows "marked tid d ids a ps (registrar_presenca tid d ids ps a)"
  unfolding marked_def
  by (cases "find_presenca (al_id a) d ps")
     (simp_all add: step_presenca(2) [OF wf] presenca_row_def)

lemma attendance_post_Cons:
  assumes post: "attendance_post tid d ids as ps1 ps'"
    and fresh: "al_id a \<notin> al_id ` set as"
    and others: "\<forall>k r. (k, r) \<noteq> (al_id a, d) \<longrightarrow> find_presenca k r ps1 = find_presenca k r ps"
    and row: "marked tid d ids a ps ps1"
  shows "attendance_post tid d ids (a # as) ps ps'"
proof -
  from post have wf': "wf_presencas ps'"
    and rows: "\<forall>b \<in> set as. marked tid d ids b ps1 ps'"
    and oth: "\<forall>k r. r \<noteq> d \<or> k \<notin> al_id ` set as \<longrightarrow> find_presenca k r ps' = find_presenca k r ps1"
    by (simp_all add: attendance_post_def)
  have fa: "find_presenca (al_id a) d ps' = find_presenca (al_id a) d ps1"
    using oth fresh by blast
  have rowa: "marked tid d ids a ps ps'" using row unfolding marked_def fa .
  have rowb: "\<forall>b \<in> set as. marked tid d ids b ps ps'"
  proof
    fix b assume b: "b \<in> set as"
    then have "al_id b \<in> al_id ` set as" by (rule imageI)
    then have "al_id b \<noteq> al_id a" using fresh by metis
    then have e: "find_presenca (al_id b) d ps1 = find_presenca (al_id b) d ps"
      using others by simp
    have "marked tid d ids b ps1 ps'" using rows b by blast
    then show "marked tid d ids b ps ps'" unfolding marked_def e .
  qed
  have o: "\<forall>k r. r \<noteq> d \<or> k \<notin> al_id ` set (a # as) \<longrightarrow>
             find_presenca k r ps' = find_presenca k r ps"
  proof (intro allI impI)
    fix k r assume h: "r \<noteq> d \<or> k \<notin> al_id ` set (a # as)"
    then have "find_presenca k r ps' = find_presenca k r ps1" using oth by auto
    moreover have "(k, r) \<noteq> (al_id a, d)" using h by auto
    ultimately show "find_presenca k r ps' = find_presenca k r ps" using others by simp
  qed
  show ?thesis using wf' rowa rowb o by (simp add: attendance_post_def)
qed

lemma attendance_loop:
  assumes "wf_presencas ps" and "distinct (map al_id as)"
  shows "attendance_post tid d ids as ps (foldl (registrar_presenca tid d ids) ps as)"
  using assms
proof (induction as arbitrary: ps)
  case Nil
  then show ?case by (simp add: attendance_post_def)
next
  case (Cons a as)
  have fresh: "al_id a \<notin> al_id ` set as" and dist: "distinct (map al_id as)"
    using Cons.prems(2) by simp_all
  note st = step_presenca [OF Cons.prems(1), where tid = tid and d = d and ids = ids and a = a]
  have post: "attendance_post tid d ids as (registrar_presenca tid d ids ps a)
                (foldl (registrar_presenca tid d ids) (registrar_presenca tid d ids ps a) as)"
    using st(1) dist by (rule Cons.IH)
  have row: "marked tid d ids a ps (registrar_presenca tid d ids ps a)"
    using Cons.prems(1) by (rule marked_step)
  have "attendance_post tid d ids (a # as) ps
          (foldl (registrar_presenca tid d ids) (registrar_presenca tid d ids ps a) as)"
    using post fresh st(3) row by (rule attendance_post_Cons)
  then show ?case by simp
qed

lemma attendance_fixpoint:
  assumes wf: "wf_presencas ps"
    and all: "\<forall>a \<in> set as. \<exists>p. find_presenca (al_id a) d ps = Some p \<and>
                pr_presente p = (al_id a \<in> set ids) \<and> pr_turma_id p = tid"
  shows "foldl (registrar_presenca tid d ids) ps as = ps"
  using all
proof (induction as)
  case Nil
  then show ?case by simp
next
  case (Cons a as)
  have "a \<in> set (a # as)" by simp
  with Cons.prems obtain p where p: "find_presenca (al_id a) d ps = Some p"
    and f: "pr_presente p = (al_id a \<in> set ids)" "pr_turma_id p = tid" by blast
  have di: "distinct (map pr_id ps)" using wf by (simp add: wf_presencas_def)
  have mem: "p \<in> set ps"
    using p unfolding find_presenca_key by (rule find_key_SomeD [THEN conjunct1])
  have "p\<lparr>pr_presente := pr_presente p, pr_turma_id := pr_turma_id p\<rparr> = p" by simp
  then have same: "p\<lparr>pr_presente := al_id a \<in> set ids, pr_turma_id := tid\<rparr> = p"
    unfolding f .
  have step: "registrar_presenca tid d ids ps a = ps"
    unfolding registrar_presenca_Some [OF p] same using di mem by (rule update_presenca_same)
  have "\<forall>a \<in> set as. \<exists>p. find_presenca (al_id a) d ps = Some p \<and>
                pr_presente p = (al_id a \<in> set ids) \<and> pr_turma_id p = tid"
    using Cons.prems by simp
  then have "foldl (registrar_presenca tid d ids) ps as = ps" by (rule Cons.IH)
  then show ?case by (simp add: step)
qed

lemma attendance_no_new_rows:
  assumes "wf_presencas ps" and "distinct (map al_id as)"
    and "\<forall>a \<in> set as. find_presenca (al_id a) d ps \<noteq> None"
  shows "map pr_id (foldl (registrar_presenca tid d ids) ps as) = map pr_id ps"
  using assms
proof (induction as arbitrary: ps)
  case Nil
  then show ?case by simp
next
  case (Cons a as)
  let ?ps1 = "registrar_presenca tid d ids ps a"
  note st = step_presenca [OF Cons.prems(1), where tid = tid and d = d and ids = ids and a = a]
  have fresh: "al_id a \<notin> al_id ` set as" and dist: "distinct (map al_id as)"
    using Cons.prems(2) by simp_all
  have ids1: "map pr_id ?ps1 = map pr_id ps" using st(4) Cons.prems(3) by simp
  have "\<forall>b \<in> set as. find_presenca (al_id b) d ?ps1 \<noteq> None"
  proof
    fix b assume b: "b \<in> set as"
    then have "al_id b \<in> al_id ` set as" by (rule imageI)
    then have "al_id b \<noteq> al_id a" using fresh by metis
    then have "find_presenca (al_id b) d ?ps1 = find_presenca (al_id b) d ps" using st(3) by simp
    then show "find_presenca (al_id b) d ?ps1 \<noteq> None" using Cons.prems(3) b by simp
  qed
  with st(1) dist have "map pr_id (foldl (registrar_presenca tid d ids) ?ps1 as) = map pr_id ?ps1"
    by (rule Cons.IH)
  then show ?case using ids1 by simp
qed

lemma find_turma_id: "find (\<lambda>t. tu_id t = tid) ts = Some t \<Longrightarrow> tu_id t = tid"
  by (induction ts) (auto split: if_splits)

lemma distinct_turma_alunos:
  "db_constraints db \<Longrightarrow> distinct (map al_id (turma_alunos tid db))"
  by (simp add: db_constraints_def turma_alunos_def distinct_map_filter)

lemma presencas_post_found:
  assumes "find (\<lambda>t. tu_id t = tid) (db_turmas db) = Some turma"
  shows "presencas_post tid d ids db =
     (let ps' = foldl (registrar_presenca tid d ids) (db_presencas db) (turma_alunos tid db)
      in if distinct (map pr_key ps')
         then (db\<lparr>db_presencas := ps'\<rparr>, Redirect_success Presencas_registradas)
         else (db, Redirect_error Presencas_nao_salvas))"
  using assms find_turma_id [OF assms] by (simp add: presencas_post_def)

lemma presencas_post_success:
  assumes c: "db_constraints db"
    and t: "find (\<lambda>t. tu_id t = tid) (db_turmas db) = Some turma"
  shows "presencas_post tid d ids db =
     (db\<lparr>db_presencas := foldl (registrar_presenca tid d ids) (db_presencas db) (turma_alunos tid db)\<rparr>,
      Redirect_success Presencas_registradas)"
    and "attendance_post tid d ids (turma_alunos tid db) (db_presencas db)
           (foldl (registrar_presenca tid d ids) (db_presencas db) (turma_alunos tid db))"
proof -
  let ?ps' = "foldl (registrar_presenca tid d ids) (db_presencas db) (turma_alunos tid db)"
  have wf: "wf_presencas (db_presencas db)"
    using c by (simp add: db_constraints_def wf_presencas_def)
  have da: "distinct (map al_id (turma_alunos tid db))" using c by (rule distinct_turma_alunos)
  show post: "attendance_post tid d ids (turma_alunos tid db) (db_presencas db) ?ps'"
    using wf da by (rule attendance_loop)
  then have "distinct (map pr_key ?ps')" by (simp add: attendance_post_def wf_presencas_def)
  then show "presencas_post tid d ids db = (db\<lparr>db_presencas := ?ps'\<rparr>, Redirect_success Presencas_registradas)"
    by (simp add: presencas_post_found [OF t] Let_def)
qed

lemma marked_row:
  assumes "marked tid d ids a ps ps'"
  shows "\<exists>p. find_presenca (al_id a) d ps' = Some p \<and>
           pr_presente p = (al_id a \<in> set ids) \<and> pr_turma_id p = tid \<and>
           (\<forall>q. find_presenca (al_id a) d ps = Some q \<longrightarrow>
                p = q\<lparr>pr_presente := al_id a \<in> set ids, pr_turma_id := tid\<rparr>)"
  using assms unfolding marked_def by (cases "find_presenca (al_id a) d ps") auto

text \<open>
  Claim C7.  On a database that satisfies its constraints, submitting the attendance of an
  existing class \<open>C\<close> for a date \<open>D\<close> succeeds and leaves, for every student currently in
  \<open>C\<close>, exactly one attendance row of that student and date; its \<open>presente\<close> flag is true
  exactly when the student's id is among the submitted ids; a row that existed is that row
  updated, otherwise the row is created.  Submitting the same form again changes nothing,
  and submitting any other list of ids for \<open>C\<close> and \<open>D\<close> creates no row.
\<close>

theorem attendance_upsert:
  assumes c: "db_constraints db"
    and t: "find (\<lambda>t. tu_id t = tid) (db_turmas db) = Some turma"
    and run: "presencas_post tid D ids db = (db', r)"
  shows "r = Redirect_success Presencas_registradas \<and> db_constraints db' \<and>
         (\<forall>a \<in> set (db_alunos db). al_turma_id a = Some tid \<longrightarrow>
            length (filter (\<lambda>p. pr_aluno_id p = al_id a \<and> pr_data p = D) (db_presencas db')) = 1 \<and>
            (\<exists>p. find_presenca (al_id a) D (db_presencas db') = Some p \<and>
                 pr_presente p = (al_id a \<in> set ids) \<and> pr_turma_id p = tid \<and>
                 (\<forall>q. find_presenca (al_id a) D (db_presencas db) = Some q \<longrightarrow>
                      p = q\<lparr>pr_presente := al_id a \<in> set ids, pr_turma_id := tid\<rparr>))) \<and>
         presencas_post tid D ids db' = (db', r) \<and>
         (\<forall>ids2. map pr_id (db_presencas (fst (presencas_post tid D ids2 db'))) =
                   map pr_id (db_presencas db'))"
proof -
  let ?as = "turma_alunos tid db"
  let ?ps' = "foldl (registrar_presenca tid D ids) (db_presencas db) ?as"
  note s = presencas_post_success [OF c t, of D ids]
  have db': "db' = db\<lparr>db_presencas := ?ps'\<rparr>" and r: "r = Redirect_success Presencas_registradas"
    using run s(1) by simp_all
  have wf': "wf_presencas ?ps'" and rows: "\<forall>a \<in> set ?as. marked tid D ids a (db_presencas db) ?ps'"
    using s(2) by (simp_all add: attendance_post_def)
  have ps': "db_presencas db' = ?ps'" and al': "turma_alunos tid db' = ?as"
    and tu': "db_turmas db' = db_turmas db"
    unfolding db' by (simp_all add: turma_alunos_def)
  have c': "db_constraints db'"
    using c wf' unfolding db' by (simp add: db_constraints_def wf_presencas_def)
  have t': "find (\<lambda>t. tu_id t = tid) (db_turmas db') = Some turma" using t tu' by simp
  have dk': "distinct (map pr_key (db_presencas db'))" using wf' ps' by (simp add: wf_presencas_def)
  have each: "\<forall>a \<in> set (db_alunos db). al_turma_id a = Some tid \<longrightarrow>
            length (filter (\<lambda>p. pr_aluno_id p = al_id a \<and> pr_data p = D) (db_presencas db')) = 1 \<and>
            (\<exists>p. find_presenca (al_id a) D (db_presencas db') = Some p \<and>
                 pr_presente p = (al_id a \<in> set ids) \<and> pr_turma_id p = tid \<and>
                 (\<forall>q. find_presenca (al_id a) D (db_presencas db) = Some q \<longrightarrow>
                      p = q\<lparr>pr_presente := al_id a \<in> set ids, pr_turma_id := tid\<rparr>))"
  proof (intro ballI impI)
    fix a assume a: "a \<in> set (db_alunos db)" and cl: "al_turma_id a = Some tid"
    then have "a \<in> set ?as" by (simp add: turma_alunos_def)
    then have m: "marked tid D ids a (db_presencas db) (db_presencas db')" using rows ps' by simp
    from marked_row [OF m]
    obtain p where p: "find_presenca (al_id a) D (db_presencas db') = Some p"
      and rest: "pr_presente p = (al_id a \<in> set ids) \<and> pr_turma_id p = tid \<and>
           (\<forall>q. find_presenca (al_id a) D (db_presencas db) = Some q \<longrightarrow>
                p = q\<lparr>pr_presente := al_id a \<in> set ids, pr_turma_id := tid\<rparr>)" by blast
    have "(\<lambda>p. pr_aluno_id p = al_id a \<and> pr_data p = D) = (\<lambda>p. pr_key p = (D, al_id a))"
      by (auto simp: pr_key_def)
    then have "length (filter (\<lambda>p. pr_aluno_id p = al_id a \<and> pr_data p = D) (db_presencas db')) =
        (case find_presenca (al_id a) D (db_presencas db') of None \<Rightarrow> 0 | Some q \<Rightarrow> 1)"
      using length_filter_find_key [OF dk', of "(D, al_id a)"] by (simp add: find_presenca_key)
    then have one: "length (filter (\<lambda>p. pr_aluno_id p = al_id a \<and> pr_data p = D) (db_presencas db')) = 1"
      using p by simp
    show "length (filter (\<lambda>p. pr_aluno_id p = al_id a \<and> pr_data p = D) (db_presencas db')) = 1 \<and>
            (\<exists>p. find_presenca (al_id a) D (db_presencas db') = Some p \<and>
                 pr_presente p = (al_id a \<in> set ids) \<and> pr_turma_id p = tid \<and>
                 (\<forall>q. find_presenca (al_id a) D (db_presencas db) = Some q \<longrightarrow>
                      p = q\<lparr>pr_presente := al_id a \<in> set ids, pr_turma_id := tid\<rparr>))"
      using one p rest by blast
  qed
  have have_row: "\<forall>a \<in> set ?as. \<exists>p. find_presenca (al_id a) D ?ps' = Some p \<and>
                pr_presente p = (al_id a \<in> set ids) \<and> pr_turma_id p = tid"
  proof
    fix a assume "a \<in> set ?as"
    then have "marked tid D ids a (db_presencas db) ?ps'" using rows by blast
    from marked_row [OF this]
    show "\<exists>p. find_presenca (al_id a) D ?ps' = Some p \<and>
                pr_presente p = (al_id a \<in> set ids) \<and> pr_turma_id p = tid" by blast
  qed
  have fixp: "foldl (registrar_presenca tid D ids) ?ps' ?as = ?ps'"
    using wf' have_row by (rule attendance_fixpoint)
  have same_db: "db'\<lparr>db_presencas := db_presencas db'\<rparr> = db'" by simp
  have "foldl (registrar_presenca tid D ids) (db_presencas db') (turma_alunos tid db') =
          db_presencas db'"
    unfolding ps' al' by (rule fixp)
  then have "presencas_post tid D ids db' =
      (db'\<lparr>db_presencas := db_presencas db'\<rparr>, Redirect_success Presencas_registradas)"
    using presencas_post_success(1) [OF c' t', of D ids] by simp
  then have again: "presencas_post tid D ids db' = (db', r)"
    unfolding same_db r .
  have none_new: "\<forall>ids2. map pr_id (db_presencas (fst (presencas_post tid D ids2 db'))) =
                   map pr_id (db_presencas db')"
  proof
    fix ids2
    have da: "distinct (map al_id ?as)" using c by (rule distinct_turma_alunos)
    have "\<forall>a \<in> set ?as. find_presenca (al_id a) D ?ps' \<noteq> None" using have_row by auto
    with wf' da have "map pr_id (foldl (registrar_presenca tid D ids2) ?ps' ?as) = map pr_id ?ps'"
      by (rule attendance_no_new_rows)
    then have "map pr_id (foldl (registrar_presenca tid D ids2) (db_presencas db')
                 (turma_alunos tid db')) = map pr_id (db_presencas db')"
      unfolding ps' al' .
    then show "map pr_id (db_presencas (fst (presencas_post tid D ids2 db'))) =
                   map pr_id (db_presencas db')"
      using presencas_post_success(1) [OF c' t', of D ids2] by simp
  qed
  show ?thesis using r c' each again none_new by blast
qed

lemma example_class_constraints: "db_constraints example_class_db"
  by (simp add: db_constraints_def example_class_db_def pr_key_def pg_key_def mk_aluno_def mk_date_def)

lemma example_class_turma:
  "find (\<lambda>t. tu_id t = 1) (db_turmas example_class_db) =
     Some \<lparr>tu_id = 1, tu_nome = ''Sub-11'', tu_categoria = ''Infantil'',
           tu_dias_horario = ''Seg 18h'', tu_local_treino = ''Campo 1''\<rparr>"
  by (simp add: example_class_db_def)

lemma example_class_run:
  "presencas_post 1 (mk_date 2024 3 4) [2] example_class_db =
     (example_class_db_after, Redirect_success Presencas_registradas)"
  by (simp add: presencas_post_def example_class_db_def example_class_db_after_def
      turma_alunos_def registrar_presenca_def find_presenca_def new_presenca_def
      update_presenca_def next_id_def pr_key_def mk_aluno_def mk_date_def Let_def)

theorem attendance_upsert_witness:
  "db_constraints example_class_db \<and>
   find (\<lambda>t. tu_id t = 1) (db_turmas example_class_db) =
     Some \<lparr>tu_id = 1, tu_nome = ''Sub-11'', tu_categoria = ''Infantil'',
           tu_dias_horario = ''Seg 18h'', tu_local_treino = ''Campo 1''\<rparr> \<and>
   presencas_post 1 (mk_date 2024 3 4) [2] example_class_db =
     (example_class_db_after, Redirect_success Presencas_registradas) \<and>
   map pr_aluno_id (db_presencas example_class_db_after) = [1, 2] \<and>
   map pr_presente (db_presencas example_class_db_after) = [False, True] \<and>
   db_constraints example_class_db_after \<and>
   presencas_post 1 (mk_date 2024 3 4) [2] example_class_db_after =
     (example_class_db_after, Redirect_success Presencas_registradas)"
  using attendance_upsert [OF example_class_constraints example_class_turma example_class_run]
    example_class_constraints example_class_turma example_class_run
  by (simp add: example_class_db_after_def)

end
